theory Spec2Isabelle
  imports Complex_Main "HOL-Library.Word"
begin

unbundle bit_operations_syntax

section \<open>Data model of vdrone.ino\<close>

text \<open>
  The sketch keeps all of its state in globals. They become the fields of one record,
  which every function of the model takes and returns. Everything the sketch sends to
  the outside (the serial monitor, the four LEDs, the ELTRES board) is appended to a
  chronological list of effects, so that what a function did can be read off the list.
\<close>

type_synonym float32 = "32 word"
  \<comment> \<open>a C \<open>float\<close>, kept as its IEEE 754 binary32 bit pattern\<close>

datatype pin = LED_RUN | LED_GNSS | LED_SND | LED_ERR

abbreviation (input) HIGH :: bool where "HIGH \<equiv> True"
abbreviation (input) LOW :: bool where "LOW \<equiv> False"

abbreviation (input) PROGRAM_STS_INIT :: int where "PROGRAM_STS_INIT \<equiv> 0"
abbreviation (input) PROGRAM_STS_RUNNING :: int where "PROGRAM_STS_RUNNING \<equiv> 1"
abbreviation (input) PROGRAM_STS_STOPPED :: int where "PROGRAM_STS_STOPPED \<equiv> 3"

definition INPUT_WIDTH :: nat where "INPUT_WIDTH = 56"
definition INPUT_HEIGHT :: nat where "INPUT_HEIGHT = 56"
definition INPUT_RESIZE_RATIO :: nat where "INPUT_RESIZE_RATIO = 4"

text \<open>
  Modelled from the spec: \<open>CAM_IMGSIZE_QVGA_H\<close> and \<open>CAM_IMGSIZE_QVGA_V\<close> are macros
  of the camera library's header, which is not part of the sketch. The sketch's own
  header comment (capture at 320 by 240) and the specification (section 8, "the fixed
  capture size") give their values.
\<close>

definition CAM_IMGSIZE_QVGA_H :: nat where "CAM_IMGSIZE_QVGA_H = 320"
definition CAM_IMGSIZE_QVGA_V :: nat where "CAM_IMGSIZE_QVGA_V = 240"

definition PICTURE_WIDTH :: nat where "PICTURE_WIDTH = CAM_IMGSIZE_QVGA_H"
definition PICTURE_HEIGTH :: nat where "PICTURE_HEIGTH = CAM_IMGSIZE_QVGA_V"
definition PICTURE_CLIP_WIDTH :: nat where
  "PICTURE_CLIP_WIDTH = INPUT_WIDTH * INPUT_RESIZE_RATIO"
definition PICTURE_CLIP_HEIGHT :: nat where
  "PICTURE_CLIP_HEIGHT = INPUT_HEIGHT * INPUT_RESIZE_RATIO"

text \<open>
  The events of the ELTRES board. The callback's \<open>switch\<close> names seven of them and has
  no default branch; any other value of the enumeration is \<open>ELTRES_BOARD_EVT_OTHER\<close>.
\<close>

datatype eltres_board_event =
    ELTRES_BOARD_EVT_GNSS_TMOUT
  | ELTRES_BOARD_EVT_IDLE
  | ELTRES_BOARD_EVT_SEND_READY
  | ELTRES_BOARD_EVT_SENDING
  | ELTRES_BOARD_EVT_GNSS_UNRECEIVE
  | ELTRES_BOARD_EVT_GNSS_RECEIVE
  | ELTRES_BOARD_EVT_FAULT
  | ELTRES_BOARD_EVT_OTHER int

text \<open>
  The GGA record of the board's library, with the fields the sketch reads. The byte
  arrays are C strings; the three measurements are floats.
\<close>

record eltres_board_gga_info =
  m_utc :: string
  m_n_s :: string
  m_lat :: string
  m_e_w :: string
  m_lon :: string
  m_pos_status :: "8 word"
  m_sat_used :: "8 word"
  m_hdop :: float32
  m_height :: float32
  m_geoid :: float32

text \<open>What \<open>Serial.print\<close> is given: a string, an integer or a float.\<close>

datatype serial_item = SStr string | SInt int | SFloat float32 | SNewline

datatype effect =
    SerialBegin nat
  | RandomSeed nat
  | PinMode pin
  | SerialOut serial_item
  | DigitalWrite pin bool
  | Sleep nat
  | SetPayload "8 word list"

record state =
  program_sts :: int
  gnss_recevie_timeout :: bool
  last_change_blink_time :: "64 word"
  event_send_ready :: bool
  payload :: "8 word list"
  last_gga_info :: eltres_board_gga_info
  flag :: "32 word"
  dnn_input :: "float32 list"
  pins :: "pin \<Rightarrow> bool"
  trace :: "effect list"

subsection \<open>The Arduino calls the sketch makes\<close>

definition emit :: "effect \<Rightarrow> state \<Rightarrow> state" where
  "emit e s = s\<lparr>trace := trace s @ [e]\<rparr>"

definition Serial_print :: "serial_item \<Rightarrow> state \<Rightarrow> state" where
  "Serial_print x s = emit (SerialOut x) s"

definition Serial_println :: "serial_item \<Rightarrow> state \<Rightarrow> state" where
  "Serial_println x s = emit (SerialOut SNewline) (emit (SerialOut x) s)"

definition digitalWrite :: "pin \<Rightarrow> bool \<Rightarrow> state \<Rightarrow> state" where
  "digitalWrite p v s = emit (DigitalWrite p v) (s\<lparr>pins := (pins s)(p := v)\<rparr>)"

definition digitalRead :: "pin \<Rightarrow> state \<Rightarrow> bool" where
  "digitalRead p s = pins s p"

text \<open>What a function added to the effects of the state it started from.\<close>

definition emitted :: "state \<Rightarrow> state \<Rightarrow> effect list" where
  "emitted s s' = drop (length (trace s)) (trace s')"

section \<open>The payload encoder\<close>

text \<open>
  \<open>setup_payload_detection(int16_t flag)\<close>. The board's clock is read through
  \<open>EltresAddonBoard.get_gnss_time(&gnss_time)\<close>, whose return code the sketch
  ignores: \<open>gnss_time\<close> is whatever the variable holds after the call, and is an
  argument here. \<open>utc_time\<close> is a \<open>uint32_t\<close>, so the subtraction of the 18 leap
  seconds is the subtraction of 32-bit words. In \<open>flag & 0xff\<close> the 16-bit flag is
  promoted to a 32-bit \<open>int\<close> first.
\<close>

definition setup_payload_detection :: "16 word \<Rightarrow> 32 word \<Rightarrow> state \<Rightarrow> state" where
  "setup_payload_detection flag16 gnss_time s =
    (let utc_time = gnss_time - 18;
         s1 = Serial_println (SStr ''[setup_payload_detection]'') s;
         s2 = Serial_print (SStr ''detection flag:'') s1;
         s3 = Serial_print (SInt (sint flag16)) s2;
         s4 = Serial_print SNewline s3;
         p0 = replicate 16 (0 :: 8 word);
         p1 = p0[0 := 0x8A];
         p2 = p1[1 := ucast ((scast flag16 :: 32 word) AND 0xff)];
         p3 = p2[10 := ucast (drop_bit 24 utc_time AND 0xff)];
         p4 = p3[11 := ucast (drop_bit 16 utc_time AND 0xff)];
         p5 = p4[12 := ucast (drop_bit 8 utc_time AND 0xff)];
         p6 = p5[13 := ucast (utc_time AND 0xff)];
         p7 = p6[14 := 0x00];
         p8 = p7[15 := m_pos_status (last_gga_info s4)]
     in s4\<lparr>payload := p8\<rparr>)"

text \<open>Reading four bytes as a 32-bit big-endian number.\<close>

definition be32 :: "8 word \<Rightarrow> 8 word \<Rightarrow> 8 word \<Rightarrow> 8 word \<Rightarrow> 32 word" where
  "be32 b3 b2 b1 b0 =
     push_bit 24 (ucast b3) OR push_bit 16 (ucast b2) OR push_bit 8 (ucast b1) OR ucast b0"

section \<open>The crop rectangle\<close>

text \<open>
  The four corner coordinates \<open>loop\<close> computes before it calls
  \<open>clipAndResizeImageByHW\<close>. They are C \<open>int\<close>s, computed from the macros above;
  the values are far from the limits of 32 bits. C's division truncates towards zero.
\<close>

definition c_div :: "int \<Rightarrow> int \<Rightarrow> int" where
  "c_div a b = sgn a * sgn b * (\<bar>a\<bar> div \<bar>b\<bar>)"

definition lefttop_x :: int where
  "lefttop_x = c_div (int PICTURE_WIDTH - int PICTURE_CLIP_WIDTH) 2"
definition lefttop_y :: int where
  "lefttop_y = c_div (int PICTURE_HEIGTH - int PICTURE_CLIP_HEIGHT) 2"
definition rightbottom_x :: int where
  "rightbottom_x = lefttop_x + int PICTURE_CLIP_WIDTH - 1"
definition rightbottom_y :: int where
  "rightbottom_y = lefttop_y + int PICTURE_CLIP_HEIGHT - 1"

section \<open>Floats\<close>

text \<open>
  Two things are done with floats in the sketch: the inference output is used as a
  condition, and a pixel is divided by \<open>255.0\<close>. A float converts to \<open>true\<close> unless
  it compares equal to zero, that is, unless all bits but the sign are clear.
\<close>

definition float_nonzero :: "float32 \<Rightarrow> bool" where
  "float_nonzero v = (v AND 0x7FFFFFFF \<noteq> 0)"

text \<open>
  In \<open>camera_buf[i] / 255.0\<close> the pixel is converted to \<open>double\<close>, the division
  is a binary64 division, and the assignment narrows the quotient to binary32; both
  steps round to nearest, ties to even. The model computes this on natural numbers.
  \<open>rne_div n d\<close> is the quotient \<open>n / d\<close> rounded so to an integer. \<open>round_prec p n d\<close>
  rounds the positive quotient \<open>n / d\<close> to \<open>p\<close> significant bits: it doubles the
  numerator until the integer part of the quotient has \<open>p\<close> bits, counting the
  doublings, and returns the pair \<open>(m, k)\<close> that stands for \<open>m / 2 ^ k\<close>. No exponent
  range is applied: the quotients formed here lie between \<open>1 / 255\<close> and \<open>1\<close>, where
  both formats have normal numbers only.
\<close>

definition rne_div :: "nat \<Rightarrow> nat \<Rightarrow> nat" where
  "rne_div n d =
     (let q = n div d; r = n mod d
      in if 2 * r < d then q else if d < 2 * r then q + 1 else if even q then q else q + 1)"

function shift_to :: "nat \<Rightarrow> nat \<Rightarrow> nat \<Rightarrow> nat" where
  "shift_to k n t = (if n = 0 \<or> t \<le> n then k else shift_to (k + 1) (2 * n) t)"
  by pat_completeness auto
termination
  by (relation "measure (\<lambda>(k, n, t). t - n)") auto

declare shift_to.simps [simp del]

definition round_prec :: "nat \<Rightarrow> nat \<Rightarrow> nat \<Rightarrow> nat \<times> nat" where
  "round_prec p n d = (let k = shift_to 0 n (d * 2 ^ (p - 1)) in (rne_div (n * 2 ^ k) d, k))"

text \<open>The narrowing of the binary64 number \<open>m / 2 ^ k\<close> to binary32.\<close>

fun narrow_to_binary32 :: "nat \<times> nat \<Rightarrow> nat \<times> nat" where
  "narrow_to_binary32 (m, k) = round_prec 24 m (2 ^ k)"

text \<open>
  The bits of the binary32 number \<open>m / 2 ^ k\<close>, for \<open>2 ^ 23 \<le> m \<le> 2 ^ 24\<close>: a sign
  of 0, the biased exponent \<open>150 - k\<close> and the 23 bits of \<open>m\<close> below its leading one;
  when the rounding has carried \<open>m\<close> up to \<open>2 ^ 24\<close> the exponent is one more and the
  fraction zero.
\<close>

fun encode_float32 :: "nat \<times> nat \<Rightarrow> float32" where
  "encode_float32 (m, k) =
     (if m = 2 ^ 24 then word_of_nat ((151 - k) * 2 ^ 23)
      else word_of_nat ((150 - k) * 2 ^ 23 + (m - 2 ^ 23)))"

definition div_255 :: "8 word \<Rightarrow> float32" where
  "div_255 c =
     (if c = 0 then 0
      else encode_float32 (narrow_to_binary32 (round_prec 53 (unat c) 255)))"

text \<open>
  The real number that a finite binary32 bit pattern stands for: bit 31 is the sign,
  bits 23 to 30 the biased exponent and bits 0 to 22 the fraction.
\<close>

definition valof :: "float32 \<Rightarrow> real" where
  "valof v =
     (let s = unat v div 2 ^ 31; e = unat v div 2 ^ 23 mod 2 ^ 8; f = unat v mod 2 ^ 23
      in (if s = 1 then - 1 else 1) *
         (if e = 0 then real f / 2 ^ 149
          else if 150 \<le> e then real ((2 ^ 23 + f) * 2 ^ (e - 150))
          else real (2 ^ 23 + f) / 2 ^ (150 - e)))"

section \<open>The callbacks of the ELTRES board\<close>

fun eltres_event_cb :: "eltres_board_event \<Rightarrow> state \<Rightarrow> state" where
  "eltres_event_cb ELTRES_BOARD_EVT_GNSS_TMOUT s =
     (Serial_println (SStr ''gnss wait timeout error.'') s)\<lparr>gnss_recevie_timeout := True\<rparr>"
| "eltres_event_cb ELTRES_BOARD_EVT_IDLE s =
     digitalWrite LED_SND LOW (Serial_println (SStr ''waiting sending timings.'') s)"
| "eltres_event_cb ELTRES_BOARD_EVT_SEND_READY s =
     (Serial_println (SStr ''Shortly before sending, so setup payload if need.'') s)
       \<lparr>event_send_ready := True\<rparr>"
| "eltres_event_cb ELTRES_BOARD_EVT_SENDING s =
     digitalWrite LED_SND HIGH (Serial_println (SStr ''start sending.'') s)"
| "eltres_event_cb ELTRES_BOARD_EVT_GNSS_UNRECEIVE s =
     digitalWrite LED_GNSS LOW (Serial_println (SStr ''gnss wave has not been received.'') s)"
| "eltres_event_cb ELTRES_BOARD_EVT_GNSS_RECEIVE s =
     (digitalWrite LED_GNSS HIGH (Serial_println (SStr ''gnss wave has been received.'') s))
       \<lparr>gnss_recevie_timeout := False\<rparr>"
| "eltres_event_cb ELTRES_BOARD_EVT_FAULT s =
     Serial_println (SStr ''internal error.'') s"
| "eltres_event_cb (ELTRES_BOARD_EVT_OTHER n) s = s"

definition gga_event_cb :: "eltres_board_gga_info \<Rightarrow> state \<Rightarrow> state" where
  "gga_event_cb gga_info s =
     (let s1 = Serial_print (SStr ''[gga]'') s;
          s2 = s1\<lparr>last_gga_info := gga_info\<rparr>
      in if m_pos_status gga_info \<noteq> 0 then
           fold Serial_print
             [SStr ''utc: '', SStr (m_utc gga_info), SNewline,
              SStr ''lat: '', SStr (m_n_s gga_info), SStr (m_lat gga_info),
              SStr '', lon: '', SStr (m_e_w gga_info), SStr (m_lon gga_info), SNewline,
              SStr ''pos_status: '', SInt (uint (m_pos_status gga_info)),
              SStr '', sat_used: '', SInt (uint (m_sat_used gga_info)), SNewline,
              SStr ''hdop: '', SFloat (m_hdop gga_info),
              SStr '', height: '', SFloat (m_height gga_info),
              SStr '' m, geoid: '', SFloat (m_geoid gga_info), SStr '' m'', SNewline]
             s2
         else Serial_println (SStr ''invalid data.'') s2)"

section \<open>Start-up\<close>

text \<open>
  What the devices answer during \<open>setup\<close>. The result types of the libraries are
  enumerations whose success value the sketch compares with; a failure carries the
  number that the sketch prints. \<open>Serial_ready k\<close> is what the \<open>k\<close>-th test of
  \<open>Serial\<close> in the wait for the serial monitor finds.
\<close>

datatype eltres_board_result = ELTRES_BOARD_RESULT_OK | ELTRES_BOARD_RESULT_ERR int
datatype CamErr = CAM_ERR_SUCCESS | CAM_ERR_CODE int

record setup_env =
  eltres_begin :: eltres_board_result
  Serial_ready :: "nat \<Rightarrow> bool"
  nnbfile_found :: bool
  dnnrt_begin :: int
  camera_begin :: CamErr
  setStillPictureImageFormat :: CamErr

text \<open>
  \<open>setup\<close> ends in one of three ways: it returns, after which the Arduino core calls
  \<open>loop\<close> for ever; it calls \<open>exit(0)\<close>, which ends the program; or it waits for a
  serial monitor that never comes, which is the result \<open>None\<close>.
\<close>

datatype outcome = Returned (outcome_state: state) | Exited (outcome_state: state)

fun is_Returned :: "outcome \<Rightarrow> bool" where
  "is_Returned (Returned s) = True"
| "is_Returned (Exited s) = False"

partial_function (option) wait_Serial :: "(nat \<Rightarrow> bool) \<Rightarrow> nat \<Rightarrow> nat option" where
  "wait_Serial ready k = (if ready k then Some k else wait_Serial ready (Suc k))"

definition setup_fn :: "setup_env \<Rightarrow> state \<Rightarrow> outcome option" where
  "setup_fn env s =
    (let s1 = emit (RandomSeed 0) (emit (SerialBegin 115200) s);
         s2 = digitalWrite LED_RUN HIGH (emit (PinMode LED_RUN) s1);
         s3 = digitalWrite LED_GNSS LOW (emit (PinMode LED_GNSS) s2);
         s4 = digitalWrite LED_SND LOW (emit (PinMode LED_SND) s3);
         s5 = digitalWrite LED_ERR LOW (emit (PinMode LED_ERR) s4)
     in case eltres_begin env of
          ELTRES_BOARD_RESULT_ERR ret_elt \<Rightarrow>
            (let t1 = digitalWrite LED_ERR HIGH (digitalWrite LED_RUN LOW s5);
                 t2 = t1\<lparr>program_sts := PROGRAM_STS_STOPPED\<rparr>;
                 t3 = Serial_print (SStr ''cannot start eltres board ('') t2;
                 t4 = Serial_print (SInt ret_elt) t3
             in Some (Returned (Serial_println (SStr '').'') t4)))
        | ELTRES_BOARD_RESULT_OK \<Rightarrow>
            (let s6 = emit (SerialBegin 115200) s5
             in case wait_Serial (Serial_ready env) 0 of
                  None \<Rightarrow> None
                | Some k \<Rightarrow>
                    if \<not> nnbfile_found env then
                      Some (Exited (Serial_print (SStr ''nnb is not found'') s6))
                    else if dnnrt_begin env < 0 then
                      Some (Exited (Serial_println (SInt (dnnrt_begin env))
                        (Serial_print (SStr ''DNNRT initialization failure.: '') s6)))
                    else
                      (case camera_begin env of
                         CAM_ERR_CODE cam_err \<Rightarrow>
                           Some (Exited (Serial_println (SInt cam_err)
                             (Serial_print (SStr ''CAMERA initialization failure.: '') s6)))
                       | CAM_ERR_SUCCESS \<Rightarrow>
                           (case setStillPictureImageFormat env of
                              CAM_ERR_CODE cam_err \<Rightarrow>
                                Some (Exited (Serial_println (SInt cam_err)
                                  (Serial_print (SStr ''CAMERA set parameters failure.: '') s6)))
                            | CAM_ERR_SUCCESS \<Rightarrow>
                                (let s7 = s6\<lparr>program_sts := PROGRAM_STS_RUNNING\<rparr>;
                                     s8 = s7\<lparr>program_sts := PROGRAM_STS_RUNNING\<rparr>
                                 in Some (Returned (Serial_println
                                      (SStr [CHR 0xE7, CHR 0xB6, CHR 0x9A, CHR 0xE8, CHR 0xA1, CHR 0x8C])
                                      s8)))))))"

text \<open>The globals as their initialisers leave them, before \<open>setup\<close> runs.\<close>

definition init_gga_info :: eltres_board_gga_info where
  "init_gga_info =
     \<lparr>m_utc = [], m_n_s = [], m_lat = [], m_e_w = [], m_lon = [],
      m_pos_status = 0, m_sat_used = 0, m_hdop = 0, m_height = 0, m_geoid = 0\<rparr>"

definition no_pin_high :: "pin \<Rightarrow> bool" where
  "no_pin_high p = LOW"

definition init_state :: state where
  "init_state =
     \<lparr>program_sts = PROGRAM_STS_INIT, gnss_recevie_timeout = False,
      last_change_blink_time = 0, event_send_ready = False,
      payload = replicate 16 0, last_gga_info = init_gga_info, flag = 0,
      dnn_input = replicate (INPUT_WIDTH * INPUT_HEIGHT) 0,
      pins = no_pin_high, trace = []\<rparr>"

section \<open>The main cycle\<close>

text \<open>
  What one call of \<open>loop\<close> is answered by the outside: the number \<open>random(0, 2)\<close>
  returns (a \<open>long\<close>, 32 bits on this board), whether the picture taken is available,
  the results of the crop and of the conversion to grayscale, the bytes of the converted
  image, the first output of the network for a given input tensor, the milliseconds
  since start and the GNSS time of the board.
\<close>

record loop_env =
  random_0_2 :: "32 word"
  isAvailable :: bool
  clipAndResizeImageByHW :: CamErr
  convertPixFormat :: CamErr
  getImgBuff :: "8 word list"
  forward_output0 :: "float32 list \<Rightarrow> float32"
  millis :: "64 word"
  get_gnss_time :: "32 word"

text \<open>
  The two nested \<open>for\<close> loops that fill the input tensor. A converted image holds
  \<open>INPUT_WIDTH * INPUT_HEIGHT\<close> bytes and the tensor as many floats; a read or a
  write beyond them is undefined in C and unspecified here.
\<close>

definition fill_input :: "8 word list \<Rightarrow> float32 list \<Rightarrow> float32 list" where
  "fill_input camera_buf input_data =
     fold (\<lambda>h data.
        fold (\<lambda>w data.
           data[h * INPUT_WIDTH + w := div_255 (camera_buf ! (h * INPUT_WIDTH + w))])
          [0..<INPUT_WIDTH] data)
       [0..<INPUT_HEIGHT] input_data"

text \<open>The \<open>switch (program_sts)\<close> at the end of \<open>loop\<close>.\<close>

definition loop_switch :: "loop_env \<Rightarrow> state \<Rightarrow> state" where
  "loop_switch env s =
    (if program_sts s = PROGRAM_STS_RUNNING then
       (let s1 =
          (if gnss_recevie_timeout s then
             (let now_time = millis env;
                  t1 = (if now_time - last_change_blink_time s \<ge> 1000 then
                          (let u1 = s\<lparr>last_change_blink_time := now_time\<rparr>;
                               set_value = digitalRead LED_ERR u1;
                               next_value = (if set_value = LOW then HIGH else LOW)
                           in digitalWrite LED_ERR next_value u1)
                        else s)
              in Serial_println (SInt (if gnss_recevie_timeout t1 then 1 else 0)) t1)
           else digitalWrite LED_ERR LOW s)
        in if event_send_ready s1 then
             (let s2 = s1\<lparr>event_send_ready := False\<rparr>;
                  s3 = setup_payload_detection (ucast (flag s2)) (get_gnss_time env) s2
              in emit (SetPayload (payload s3)) s3)
           else s1)
     else if program_sts s = PROGRAM_STS_STOPPED then s
     else s)"

text \<open>
  \<open>loop\<close> from its first line to the conversion to grayscale. Each of the three
  camera steps can fail, and \<open>loop\<close> then returns at once: \<open>Inl\<close> is the state at
  such a return, \<open>Inr\<close> the state with which \<open>loop\<close> goes on. The corner coordinates
  passed to the crop are those of the section on the crop rectangle; the camera is
  outside the model, and its answer is part of \<open>env\<close>.
\<close>

definition loop_capture :: "loop_env \<Rightarrow> state \<Rightarrow> state + state" where
  "loop_capture env s =
    (let s1 = Serial_println (SStr ''Loop in.'') s;
         s2 = s1\<lparr>flag := random_0_2 env\<rparr>;
         s3 = Serial_print (SStr ''Flag is '') s2;
         s4 = Serial_println (SInt (sint (flag s3))) s3;
         s5 = emit (Sleep 1) s4
     in if \<not> isAvailable env then
          Inl (Serial_println (SStr ''CAMERA take picture failure.'') s5)
        else
          (let s6 = Serial_println (SStr ''CAMERA take picture success.'') s5
           in case clipAndResizeImageByHW env of
                CAM_ERR_CODE cam_err \<Rightarrow>
                  Inl (Serial_println (SInt cam_err)
                    (Serial_print (SStr ''CAMERA resize failure. : '') s6))
              | CAM_ERR_SUCCESS \<Rightarrow>
                  (case convertPixFormat env of
                     CAM_ERR_CODE cam_err \<Rightarrow>
                       Inl (Serial_println (SInt cam_err)
                         (Serial_print (SStr ''CAMERA convert format failure. : '') s6))
                   | CAM_ERR_SUCCESS \<Rightarrow> Inr s6)))"

text \<open>The tensor is filled, the network is run and its first output is reported.\<close>

definition loop_infer :: "loop_env \<Rightarrow> state \<Rightarrow> state" where
  "loop_infer env s =
    (let s1 = s\<lparr>dnn_input := fill_input (getImgBuff env) (dnn_input s)\<rparr>;
         value = forward_output0 env (dnn_input s1)
     in if float_nonzero value then
          Serial_print (SFloat value)
            (Serial_print (SStr '' ( value: '')
              (Serial_print (SStr ''Object detection!!'') s1))
        else s1)"

definition loop :: "loop_env \<Rightarrow> state \<Rightarrow> state" where
  "loop env s =
    (case loop_capture env s of
       Inl s' \<Rightarrow> s'
     | Inr s' \<Rightarrow> loop_switch env (loop_infer env s'))"

text \<open>A call of \<open>loop\<close> reaches its \<open>switch\<close> unless one of the camera steps fails.\<close>

definition completes :: "loop_env \<Rightarrow> bool" where
  "completes env =
     (isAvailable env \<and> clipAndResizeImageByHW env = CAM_ERR_SUCCESS
        \<and> convertPixFormat env = CAM_ERR_SUCCESS)"

section \<open>Runs\<close>

text \<open>
  After \<open>setup\<close> has returned, the program is a sequence of calls: of \<open>loop\<close> by the
  Arduino core, and of the two callbacks by the board's library. Each call is taken as
  one step; a callback that would interrupt \<open>loop\<close> is ordered before or after it.
\<close>

datatype action = Tick loop_env | Event eltres_board_event | Gga eltres_board_gga_info

fun perform :: "action \<Rightarrow> state \<Rightarrow> state" where
  "perform (Tick env) s = loop env s"
| "perform (Event event) s = eltres_event_cb event s"
| "perform (Gga gga_info) s = gga_event_cb gga_info s"

definition run :: "action list \<Rightarrow> state \<Rightarrow> state" where
  "run acts s = fold perform acts s"

text \<open>The effects of the calls of \<open>loop\<close> in a run, without those of the callbacks.\<close>

fun tick_effects :: "action list \<Rightarrow> state \<Rightarrow> effect list" where
  "tick_effects [] s = []"
| "tick_effects (Tick env # acts) s =
     emitted s (loop env s) @ tick_effects acts (loop env s)"
| "tick_effects (a # acts) s = tick_effects acts (perform a s)"

text \<open>
  What a list of effects holds of each kind: the levels written to the pins, the
  payloads handed to \<open>EltresAddonBoard.set_payload\<close>, and the items printed.
\<close>

fun writes_of :: "effect list \<Rightarrow> (pin \<times> bool) list" where
  "writes_of [] = []"
| "writes_of (DigitalWrite p v # es) = (p, v) # writes_of es"
| "writes_of (e # es) = writes_of es"

fun payloads_of :: "effect list \<Rightarrow> 8 word list list" where
  "payloads_of [] = []"
| "payloads_of (SetPayload bytes # es) = bytes # payloads_of es"
| "payloads_of (e # es) = payloads_of es"

fun serial_of :: "effect list \<Rightarrow> serial_item list" where
  "serial_of [] = []"
| "serial_of (SerialOut x # es) = x # serial_of es"
| "serial_of (e # es) = serial_of es"

text \<open>The second state has the effects of the first and possibly more.\<close>

definition extends :: "state \<Rightarrow> state \<Rightarrow> bool" where
  "extends s s' = (trace s' = trace s @ emitted s s')"

text \<open>
  The clock readings of the calls of \<open>loop\<close>, among those of a list, that changed the
  level of the error LED.
\<close>

fun toggle_times :: "loop_env list \<Rightarrow> state \<Rightarrow> 64 word list" where
  "toggle_times [] s = []"
| "toggle_times (env # envs) s =
     (if pins (loop env s) LED_ERR \<noteq> pins s LED_ERR then [millis env] else [])
       @ toggle_times envs (loop env s)"

section \<open>Concrete inputs\<close>

text \<open>
  Answers of the devices at which the theorems below are evaluated: a start-up in
  which every step succeeds, and one for each step that can fail.
\<close>

definition all_ok :: setup_env where
  "all_ok =
     \<lparr>eltres_begin = ELTRES_BOARD_RESULT_OK, Serial_ready = (\<lambda>k. 3 \<le> k),
      nnbfile_found = True, dnnrt_begin = 0, camera_begin = CAM_ERR_SUCCESS,
      setStillPictureImageFormat = CAM_ERR_SUCCESS\<rparr>"

definition radio_fails :: setup_env where
  "radio_fails = all_ok\<lparr>eltres_begin := ELTRES_BOARD_RESULT_ERR (- 1)\<rparr>"

definition no_model_file :: setup_env where
  "no_model_file = all_ok\<lparr>nnbfile_found := False\<rparr>"

definition dnnrt_fails :: setup_env where
  "dnnrt_fails = all_ok\<lparr>dnnrt_begin := - 1\<rparr>"

definition camera_fails :: setup_env where
  "camera_fails = all_ok\<lparr>camera_begin := CAM_ERR_CODE (- 2)\<rparr>"

definition format_fails :: setup_env where
  "format_fails = all_ok\<lparr>setStillPictureImageFormat := CAM_ERR_CODE (- 5)\<rparr>"

text \<open>The states in which \<open>setup\<close> returns after a good and after a bad start of the board.\<close>

definition started :: state where
  "started = outcome_state (the (setup_fn all_ok init_state))"

definition stopped :: state where
  "stopped = outcome_state (the (setup_fn radio_fails init_state))"

text \<open>
  A call of \<open>loop\<close> at a given time in which the camera works, the picture is uniformly
  grey, the network answers with a given float and \<open>random\<close> with a given number; and
  a call in which no picture is available.
\<close>

definition tick_at :: "64 word \<Rightarrow> float32 \<Rightarrow> 32 word \<Rightarrow> loop_env" where
  "tick_at now score r =
     \<lparr>random_0_2 = r, isAvailable = True, clipAndResizeImageByHW = CAM_ERR_SUCCESS,
      convertPixFormat = CAM_ERR_SUCCESS,
      getImgBuff = replicate (INPUT_WIDTH * INPUT_HEIGHT) 0x80,
      forward_output0 = (\<lambda>input. score), millis = now, get_gnss_time = 1000018\<rparr>"

definition no_picture :: "64 word \<Rightarrow> loop_env" where
  "no_picture now = (tick_at now 0 0)\<lparr>isAvailable := False\<rparr>"

section \<open>Properties of the payload encoder\<close>

lemmas io_defs = emit_def Serial_print_def Serial_println_def digitalWrite_def digitalRead_def

lemma ff32: "(0xff :: 32 word) = mask 8"
  by (simp add: mask_eq_exp_minus_1)

lemma low_byte_of_flag: "(ucast (scast (f :: 16 word) :: 32 word) :: 8 word) = ucast f"
  by (rule bit_word_eqI) (auto simp add: bit_simps)

lemma low_byte_of_word: "(ucast ((x :: 32 word) AND 0xff) :: 8 word) = ucast x"
  unfolding ff32 by (rule bit_word_eqI) (auto simp add: bit_simps)

lemma be32_bytes:
  "be32 (ucast (drop_bit 24 (x :: 32 word))) (ucast (drop_bit 16 x)) (ucast (drop_bit 8 x)) (ucast x) = x"
  unfolding be32_def
proof (rule bit_word_eqI)
  fix n assume "n < LENGTH(32)"
  then have n: "n < 32" by simp
  consider "n < 8" | "8 \<le> n" "n < 16" | "16 \<le> n" "n < 24" | "24 \<le> n" "n < 32"
    using n by linarith
  then show "bit (push_bit 24 (ucast (ucast (drop_bit 24 x) :: 8 word)) OR
              push_bit 16 (ucast (ucast (drop_bit 16 x) :: 8 word)) OR
              push_bit 8 (ucast (ucast (drop_bit 8 x) :: 8 word)) OR
              ucast (ucast x :: 8 word) :: 32 word) n = bit x n"
    by cases (auto simp add: bit_simps)
qed

lemma replicate_16: "replicate 16 x = [x, x, x, x, x, x, x, x, x, x, x, x, x, x, x, x]"
  by (simp add: numeral_eq_Suc)

lemma payload_bytes:
  "payload (setup_payload_detection f t s) =
     [0x8A, ucast f, 0, 0, 0, 0, 0, 0, 0, 0,
      ucast (drop_bit 24 (t - 18)), ucast (drop_bit 16 (t - 18)),
      ucast (drop_bit 8 (t - 18)), ucast (t - 18), 0, m_pos_status (last_gga_info s)]"
  by (simp add: setup_payload_detection_def Let_def io_defs replicate_16 low_byte_of_flag low_byte_of_word)

lemma payload_time:
  "be32 (payload (setup_payload_detection f t s) ! 10) (payload (setup_payload_detection f t s) ! 11)
        (payload (setup_payload_detection f t s) ! 12) (payload (setup_payload_detection f t s) ! 13)
     = t - 18"
  by (simp add: payload_bytes be32_bytes)

lemma wrap_below_18:
  fixes x :: int
  assumes "0 \<le> x" "x < 18"
  shows "(x - 18) mod 2 ^ 32 = x + 4294967278"
proof -
  have "(x - 18 + 2 ^ 32) mod 2 ^ 32 = (x - 18) mod 2 ^ 32"
    by (rule mod_add_self2)
  moreover have "(x - 18 + 2 ^ 32) mod 2 ^ 32 = x - 18 + 2 ^ 32"
    by (rule mod_pos_pos_trivial) (use assms in simp_all)
  ultimately have "(x - 18) mod 2 ^ 32 = x - 18 + 2 ^ 32"
    by (simp only:)
  then show ?thesis by simp
qed

text \<open>
  Claim C1. \<open>setup_payload_detection\<close> always yields a payload of 16 bytes that is
  determined by the flag, the fix quality of the last GGA record and the GNSS time:
  byte 0 is \<open>0x8A\<close>, byte 1 is the low byte of the 16-bit flag (\<open>0xFF\<close> for a flag of
  \<open>-1\<close>), bytes 2 to 9 and byte 14 are zero, bytes 10 to 13 hold the GNSS time less 18
  seconds as a 32-bit big-endian number, and byte 15 is the fix quality. For a flag of
  0, a quality of 0 and a time of 18 every byte but the first is zero, and a time of
  1000018 is encoded as 1000000.
\<close>

theorem payload_encoder_layout:
  "payload (setup_payload_detection flag16 gnss_time s) =
     [0x8A, ucast flag16, 0, 0, 0, 0, 0, 0, 0, 0,
      ucast (drop_bit 24 (gnss_time - 18)), ucast (drop_bit 16 (gnss_time - 18)),
      ucast (drop_bit 8 (gnss_time - 18)), ucast (gnss_time - 18),
      0, m_pos_status (last_gga_info s)]
   \<and> length (payload (setup_payload_detection flag16 gnss_time s)) = 16
   \<and> be32 (payload (setup_payload_detection flag16 gnss_time s) ! 10)
          (payload (setup_payload_detection flag16 gnss_time s) ! 11)
          (payload (setup_payload_detection flag16 gnss_time s) ! 12)
          (payload (setup_payload_detection flag16 gnss_time s) ! 13) = gnss_time - 18
   \<and> payload (setup_payload_detection (- 1) gnss_time s) ! 1 = 0xFF
   \<and> payload (setup_payload_detection 0 18
         (s\<lparr>last_gga_info := (last_gga_info s)\<lparr>m_pos_status := 0\<rparr>\<rparr>)) =
     [0x8A, 0, 0, 0, 0, 0, 0, 0, 0, 0, 0, 0, 0, 0, 0, 0]
   \<and> be32 (payload (setup_payload_detection flag16 1000018 s) ! 10)
          (payload (setup_payload_detection flag16 1000018 s) ! 11)
          (payload (setup_payload_detection flag16 1000018 s) ! 12)
          (payload (setup_payload_detection flag16 1000018 s) ! 13) = 1000000"
proof (intro conjI)
  show "payload (setup_payload_detection (- 1) gnss_time s) ! 1 = 0xFF"
    by (simp add: payload_bytes unsigned_minus_1_eq_mask mask_eq_exp_minus_1)
  show "be32 (payload (setup_payload_detection flag16 1000018 s) ! 10)
          (payload (setup_payload_detection flag16 1000018 s) ! 11)
          (payload (setup_payload_detection flag16 1000018 s) ! 12)
          (payload (setup_payload_detection flag16 1000018 s) ! 13) = 1000000"
    by (simp only: payload_time) simp
qed (simp_all add: payload_bytes be32_bytes)

text \<open>
  Claim C10. The subtraction of the leap seconds is one of unsigned 32-bit numbers:
  when the GNSS time is below 18, bytes 10 to 13 hold the time less 18 modulo \<open>2 ^ 32\<close>,
  which is the time plus 4294967278 and so at least 4294967278; the encoder neither
  fails nor stops at zero.
\<close>

theorem utc_time_wraps:
  assumes "gnss_time < 18"
  shows "uint (be32 (payload (setup_payload_detection flag16 gnss_time s) ! 10)
                (payload (setup_payload_detection flag16 gnss_time s) ! 11)
                (payload (setup_payload_detection flag16 gnss_time s) ! 12)
                (payload (setup_payload_detection flag16 gnss_time s) ! 13))
           = (uint gnss_time - 18) mod 2 ^ 32
     \<and> (uint gnss_time - 18) mod 2 ^ 32 = uint gnss_time + 4294967278
     \<and> 4294967278 \<le> (uint gnss_time - 18) mod 2 ^ 32"
proof -
  have "uint gnss_time < 18"
    using assms by (simp add: word_less_def)
  then have "(uint gnss_time - 18) mod 2 ^ 32 = uint gnss_time + 4294967278"
    by (intro wrap_below_18) simp_all
  moreover have "uint (gnss_time - 18) = (uint gnss_time - 18) mod 2 ^ 32"
    by (simp add: uint_word_ariths)
  ultimately show ?thesis
    by (simp only: payload_time) simp
qed

theorem utc_time_wraps_witness:
  "(0 :: 32 word) < 18
   \<and> payload (setup_payload_detection 0 0 init_state) =
       [0x8A, 0, 0, 0, 0, 0, 0, 0, 0, 0, 0xFF, 0xFF, 0xFF, 0xEE, 0, 0]
   \<and> uint (be32 0xFF 0xFF 0xFF 0xEE) = 4294967278"
  using utc_time_wraps [of 0 0 init_state]
  by (simp add: payload_bytes init_state_def init_gga_info_def be32_def)

section \<open>Properties of the crop rectangle\<close>

text \<open>
  Claim C7. The crop rectangle is centred: its left and top offsets are half of what
  the capture size exceeds the crop size by. For the capture size of 320 by 240 and the
  crop size of 56 times 4 in both directions, the rectangle runs from (48, 8) to
  (271, 231): its offsets are not negative, it lies within the captured picture, and
  the margins on opposite sides are equal.
\<close>

theorem crop_rectangle_centered:
  "lefttop_x = c_div (int PICTURE_WIDTH - int PICTURE_CLIP_WIDTH) 2
   \<and> lefttop_y = c_div (int PICTURE_HEIGTH - int PICTURE_CLIP_HEIGHT) 2
   \<and> PICTURE_WIDTH = 320 \<and> PICTURE_HEIGTH = 240
   \<and> PICTURE_CLIP_WIDTH = 224 \<and> PICTURE_CLIP_HEIGHT = 224
   \<and> lefttop_x = 48 \<and> lefttop_y = 8 \<and> rightbottom_x = 271 \<and> rightbottom_y = 231
   \<and> 0 \<le> lefttop_x \<and> lefttop_x \<le> rightbottom_x \<and> rightbottom_x < int PICTURE_WIDTH
   \<and> 0 \<le> lefttop_y \<and> lefttop_y \<le> rightbottom_y \<and> rightbottom_y < int PICTURE_HEIGTH
   \<and> int PICTURE_WIDTH - 1 - rightbottom_x = lefttop_x
   \<and> int PICTURE_HEIGTH - 1 - rightbottom_y = lefttop_y"
  by (simp add: lefttop_x_def lefttop_y_def rightbottom_x_def rightbottom_y_def c_div_def
      PICTURE_WIDTH_def PICTURE_HEIGTH_def PICTURE_CLIP_WIDTH_def PICTURE_CLIP_HEIGHT_def
      INPUT_WIDTH_def INPUT_HEIGHT_def INPUT_RESIZE_RATIO_def
      CAM_IMGSIZE_QVGA_H_def CAM_IMGSIZE_QVGA_V_def)

section \<open>How the calls change the state\<close>

lemma emit_fields [simp]:
  "program_sts (emit e s) = program_sts s"
  "gnss_recevie_timeout (emit e s) = gnss_recevie_timeout s"
  "last_change_blink_time (emit e s) = last_change_blink_time s"
  "event_send_ready (emit e s) = event_send_ready s"
  "payload (emit e s) = payload s"
  "last_gga_info (emit e s) = last_gga_info s"
  "flag (emit e s) = flag s"
  "dnn_input (emit e s) = dnn_input s"
  "pins (emit e s) = pins s"
  "trace (emit e s) = trace s @ [e]"
  by (simp_all add: emit_def)

lemmas serial_defs = Serial_print_def Serial_println_def

lemma digitalWrite_fields [simp]:
  "program_sts (digitalWrite p v s) = program_sts s"
  "gnss_recevie_timeout (digitalWrite p v s) = gnss_recevie_timeout s"
  "last_change_blink_time (digitalWrite p v s) = last_change_blink_time s"
  "event_send_ready (digitalWrite p v s) = event_send_ready s"
  "payload (digitalWrite p v s) = payload s"
  "last_gga_info (digitalWrite p v s) = last_gga_info s"
  "flag (digitalWrite p v s) = flag s"
  "dnn_input (digitalWrite p v s) = dnn_input s"
  "pins (digitalWrite p v s) = (pins s)(p := v)"
  "trace (digitalWrite p v s) = trace s @ [DigitalWrite p v]"
  by (simp_all add: digitalWrite_def)

lemma Serial_print_fields [simp]:
  "program_sts (Serial_print x s) = program_sts s"
  "gnss_recevie_timeout (Serial_print x s) = gnss_recevie_timeout s"
  "last_change_blink_time (Serial_print x s) = last_change_blink_time s"
  "event_send_ready (Serial_print x s) = event_send_ready s"
  "payload (Serial_print x s) = payload s"
  "last_gga_info (Serial_print x s) = last_gga_info s"
  "flag (Serial_print x s) = flag s"
  "dnn_input (Serial_print x s) = dnn_input s"
  "pins (Serial_print x s) = pins s"
  by (simp_all add: Serial_print_def)

lemma Serial_println_fields [simp]:
  "program_sts (Serial_println x s) = program_sts s"
  "gnss_recevie_timeout (Serial_println x s) = gnss_recevie_timeout s"
  "last_change_blink_time (Serial_println x s) = last_change_blink_time s"
  "event_send_ready (Serial_println x s) = event_send_ready s"
  "payload (Serial_println x s) = payload s"
  "last_gga_info (Serial_println x s) = last_gga_info s"
  "flag (Serial_println x s) = flag s"
  "dnn_input (Serial_println x s) = dnn_input s"
  "pins (Serial_println x s) = pins s"
  by (simp_all add: Serial_println_def)

lemma setup_payload_detection_fields [simp]:
  "program_sts (setup_payload_detection f t s) = program_sts s"
  "gnss_recevie_timeout (setup_payload_detection f t s) = gnss_recevie_timeout s"
  "last_change_blink_time (setup_payload_detection f t s) = last_change_blink_time s"
  "event_send_ready (setup_payload_detection f t s) = event_send_ready s"
  "last_gga_info (setup_payload_detection f t s) = last_gga_info s"
  "flag (setup_payload_detection f t s) = flag s"
  "dnn_input (setup_payload_detection f t s) = dnn_input s"
  "pins (setup_payload_detection f t s) = pins s"
  "trace (setup_payload_detection f t s) =
     trace s @ map SerialOut [SStr ''[setup_payload_detection]'', SNewline,
                              SStr ''detection flag:'', SInt (sint f), SNewline]"
  by (simp_all add: setup_payload_detection_def Let_def serial_defs)

lemma extendsI: "trace s' = trace s @ es \<Longrightarrow> extends s s'"
  by (simp add: extends_def emitted_def)

lemma emitted_eq: "trace s' = trace s @ es \<Longrightarrow> emitted s s' = es"
  by (simp add: emitted_def)

lemma emitted_self [simp]: "emitted s s = []"
  by (simp add: emitted_def)

lemma extends_refl [simp]: "extends s s"
  by (simp add: extends_def)

lemma emitted_trans:
  assumes "extends s s'" "extends s' s''"
  shows "emitted s s'' = emitted s s' @ emitted s' s''" "extends s s''"
proof -
  have "trace s'' = trace s @ (emitted s s' @ emitted s' s'')"
    using assms by (simp add: extends_def)
  then show "emitted s s'' = emitted s s' @ emitted s' s''" "extends s s''"
    by (rule emitted_eq, rule extendsI)
qed

lemma writes_of_append [simp]: "writes_of (xs @ ys) = writes_of xs @ writes_of ys"
  by (induction xs rule: writes_of.induct) simp_all

lemma payloads_of_append [simp]: "payloads_of (xs @ ys) = payloads_of xs @ payloads_of ys"
  by (induction xs rule: payloads_of.induct) simp_all

lemma serial_of_append [simp]: "serial_of (xs @ ys) = serial_of xs @ serial_of ys"
  by (induction xs rule: serial_of.induct) simp_all

subsection \<open>The three parts of the main cycle\<close>

lemma loop_capture_abandoned:
  assumes "\<not> completes env"
  shows "\<exists>s'. loop_capture env s = Inl s' \<and> extends s s'
           \<and> writes_of (emitted s s') = [] \<and> payloads_of (emitted s s') = []
           \<and> s'\<lparr>trace := trace s\<rparr> = s\<lparr>flag := random_0_2 env\<rparr>"
  using assms
  by (auto simp add: loop_capture_def completes_def Let_def serial_defs emit_def
      extends_def emitted_def split: CamErr.splits)

lemma loop_capture_completes:
  assumes "completes env"
  shows "\<exists>s'. loop_capture env s = Inr s' \<and> extends s s'
           \<and> writes_of (emitted s s') = [] \<and> payloads_of (emitted s s') = []
           \<and> s'\<lparr>trace := trace s\<rparr> = s\<lparr>flag := random_0_2 env\<rparr>"
  using assms
  by (auto simp add: loop_capture_def completes_def Let_def serial_defs emit_def
      extends_def emitted_def split: CamErr.splits)

lemma loop_infer_effects:
  "extends s (loop_infer env s) \<and> writes_of (emitted s (loop_infer env s)) = []
     \<and> payloads_of (emitted s (loop_infer env s)) = []
     \<and> (loop_infer env s)\<lparr>trace := trace s\<rparr> = s\<lparr>dnn_input := fill_input (getImgBuff env) (dnn_input s)\<rparr>"
  by (simp add: loop_infer_def Let_def serial_defs emit_def extends_def emitted_def)


lemma loop_switch_idle: "program_sts s \<noteq> PROGRAM_STS_RUNNING \<Longrightarrow> loop_switch env s = s"
  by (simp add: loop_switch_def)

lemma loop_switch_unchanged [simp]:
  "program_sts (loop_switch env s) = program_sts s"
  "gnss_recevie_timeout (loop_switch env s) = gnss_recevie_timeout s"
  "last_gga_info (loop_switch env s) = last_gga_info s"
  "flag (loop_switch env s) = flag s"
  "dnn_input (loop_switch env s) = dnn_input s"
  by (simp_all add: loop_switch_def Let_def serial_defs digitalRead_def)

lemma loop_switch_extends: "extends s (loop_switch env s)"
  by (simp add: loop_switch_def Let_def serial_defs digitalRead_def extends_def emitted_def)

lemma loop_switch_send_ready:
  "event_send_ready (loop_switch env s) =
     (event_send_ready s \<and> program_sts s \<noteq> PROGRAM_STS_RUNNING)"
  by (simp add: loop_switch_def Let_def serial_defs digitalRead_def)

lemma loop_switch_payloads:
  "payloads_of (emitted s (loop_switch env s)) =
     (if program_sts s = PROGRAM_STS_RUNNING \<and> event_send_ready s
      then [payload (setup_payload_detection (ucast (flag s)) (get_gnss_time env) s)] else [])"
  by (simp add: loop_switch_def Let_def serial_defs digitalRead_def emitted_def payload_bytes)

lemma loop_switch_payload:
  "payload (loop_switch env s) =
     (if program_sts s = PROGRAM_STS_RUNNING \<and> event_send_ready s
      then payload (setup_payload_detection (ucast (flag s)) (get_gnss_time env) s) else payload s)"
  by (simp add: loop_switch_def Let_def serial_defs digitalRead_def emitted_def payload_bytes)

lemma loop_switch_writes:
  "writes_of (emitted s (loop_switch env s)) =
     (if program_sts s \<noteq> PROGRAM_STS_RUNNING then []
      else if \<not> gnss_recevie_timeout s then [(LED_ERR, LOW)]
      else if 1000 \<le> millis env - last_change_blink_time s then [(LED_ERR, \<not> pins s LED_ERR)]
      else [])"
  by (simp add: loop_switch_def Let_def serial_defs digitalRead_def emitted_def)

lemma loop_switch_pins:
  "pins (loop_switch env s) =
     (if program_sts s \<noteq> PROGRAM_STS_RUNNING then pins s
      else if \<not> gnss_recevie_timeout s then (pins s)(LED_ERR := LOW)
      else if 1000 \<le> millis env - last_change_blink_time s
        then (pins s)(LED_ERR := \<not> pins s LED_ERR)
      else pins s)"
  by (simp add: loop_switch_def Let_def serial_defs digitalRead_def)

lemma loop_switch_blink_time:
  "last_change_blink_time (loop_switch env s) =
     (if program_sts s = PROGRAM_STS_RUNNING \<and> gnss_recevie_timeout s
          \<and> 1000 \<le> millis env - last_change_blink_time s
      then millis env else last_change_blink_time s)"
  by (simp add: loop_switch_def Let_def serial_defs digitalRead_def)


lemma same_but_trace:
  assumes "s1\<lparr>trace := t\<rparr> = s2"
  shows "program_sts s1 = program_sts s2" "gnss_recevie_timeout s1 = gnss_recevie_timeout s2"
    "last_change_blink_time s1 = last_change_blink_time s2"
    "event_send_ready s1 = event_send_ready s2" "payload s1 = payload s2"
    "last_gga_info s1 = last_gga_info s2" "flag s1 = flag s2" "dnn_input s1 = dnn_input s2"
    "pins s1 = pins s2"
  using assms by (cases s1; cases s2; simp)+

text \<open>
  A call of \<open>loop\<close> in which a camera step fails changes \<open>flag\<close> and prints; a call
  in which none fails runs the \<open>switch\<close> on a state that differs from the initial one
  in \<open>flag\<close>, in the input tensor and in what was printed.
\<close>

lemma loop_abandoned:
  assumes "\<not> completes env"
  shows "extends s (loop env s)" "writes_of (emitted s (loop env s)) = []"
    "payloads_of (emitted s (loop env s)) = []"
    "(loop env s)\<lparr>trace := trace s\<rparr> = s\<lparr>flag := random_0_2 env\<rparr>"
  using loop_capture_abandoned [OF assms, of s] by (auto simp add: loop_def)

lemma loop_completes:
  assumes "completes env"
  shows "\<exists>s1. loop env s = loop_switch env s1 \<and> extends s s1
           \<and> writes_of (emitted s s1) = [] \<and> payloads_of (emitted s s1) = []
           \<and> s1\<lparr>trace := trace s\<rparr> =
               s\<lparr>flag := random_0_2 env,
                  dnn_input := fill_input (getImgBuff env) (dnn_input s)\<rparr>"
proof -
  obtain s' where s': "loop_capture env s = Inr s'" "extends s s'"
      "writes_of (emitted s s') = []" "payloads_of (emitted s s') = []"
      "s'\<lparr>trace := trace s\<rparr> = s\<lparr>flag := random_0_2 env\<rparr>"
    using loop_capture_completes [OF assms, of s] by blast
  let ?s1 = "loop_infer env s'"
  have i: "extends s' ?s1" "writes_of (emitted s' ?s1) = []" "payloads_of (emitted s' ?s1) = []"
      "?s1\<lparr>trace := trace s'\<rparr> = s'\<lparr>dnn_input := fill_input (getImgBuff env) (dnn_input s')\<rparr>"
    using loop_infer_effects [of s' env] by simp_all
  have "loop env s = loop_switch env ?s1"
    by (simp add: loop_def s'(1))
  moreover have "extends s ?s1" "emitted s ?s1 = emitted s s' @ emitted s' ?s1"
    using emitted_trans [OF s'(2) i(1)] by simp_all
  moreover have "?s1\<lparr>trace := trace s\<rparr> =
      s\<lparr>flag := random_0_2 env, dnn_input := fill_input (getImgBuff env) (dnn_input s)\<rparr>"
  proof -
    have "?s1\<lparr>trace := trace s\<rparr> = (?s1\<lparr>trace := trace s'\<rparr>)\<lparr>trace := trace s\<rparr>"
      by simp
    also have "\<dots> = (s'\<lparr>trace := trace s\<rparr>)\<lparr>dnn_input := fill_input (getImgBuff env) (dnn_input s')\<rparr>"
      by (simp only: i(4)) simp
    also have "\<dots> = s\<lparr>flag := random_0_2 env, dnn_input := fill_input (getImgBuff env) (dnn_input s)\<rparr>"
      using same_but_trace(8) [OF s'(5)] by (simp add: s'(5))
    finally show ?thesis .
  qed
  ultimately show ?thesis
    using s'(3,4) i(2,3) by auto
qed

lemma loop_extends: "extends s (loop env s)"
proof (cases "completes env")
  case True
  then obtain s1 where "loop env s = loop_switch env s1" "extends s s1"
    using loop_completes [of env s] by blast
  then show ?thesis
    using emitted_trans(2) [OF _ loop_switch_extends] by simp
next
  case False
  then show ?thesis by (rule loop_abandoned)
qed

lemma loop_unchanged [simp]:
  "program_sts (loop env s) = program_sts s"
  "gnss_recevie_timeout (loop env s) = gnss_recevie_timeout s"
  "last_gga_info (loop env s) = last_gga_info s"
  "flag (loop env s) = random_0_2 env"
proof -
  have "program_sts (loop env s) = program_sts s \<and>
        gnss_recevie_timeout (loop env s) = gnss_recevie_timeout s \<and>
        last_gga_info (loop env s) = last_gga_info s \<and> flag (loop env s) = random_0_2 env"
  proof (cases "completes env")
    case True
    then obtain s1 where s1: "loop env s = loop_switch env s1"
        "s1\<lparr>trace := trace s\<rparr> = s\<lparr>flag := random_0_2 env,
            dnn_input := fill_input (getImgBuff env) (dnn_input s)\<rparr>"
      using loop_completes [of env s] by blast
    show ?thesis
      using same_but_trace [OF s1(2)] by (simp add: s1(1))
  next
    case False
    show ?thesis
      using same_but_trace [OF loop_abandoned(4) [OF False, of s]] by simp
  qed
  then show "program_sts (loop env s) = program_sts s"
    "gnss_recevie_timeout (loop env s) = gnss_recevie_timeout s"
    "last_gga_info (loop env s) = last_gga_info s"
    "flag (loop env s) = random_0_2 env"
    by simp_all
qed

lemma loop_send_ready:
  "event_send_ready (loop env s) =
     (event_send_ready s \<and> \<not> (completes env \<and> program_sts s = PROGRAM_STS_RUNNING))"
proof (cases "completes env")
  case True
  then obtain s1 where s1: "loop env s = loop_switch env s1"
      "s1\<lparr>trace := trace s\<rparr> = s\<lparr>flag := random_0_2 env,
          dnn_input := fill_input (getImgBuff env) (dnn_input s)\<rparr>"
    using loop_completes [of env s] by blast
  show ?thesis
    using same_but_trace [OF s1(2)] True by (simp add: s1(1) loop_switch_send_ready)
next
  case False
  show ?thesis
    using same_but_trace [OF loop_abandoned(4) [OF False, of s]] False by simp
qed

lemma loop_payloads:
  "payloads_of (emitted s (loop env s)) =
     (if completes env \<and> program_sts s = PROGRAM_STS_RUNNING \<and> event_send_ready s
      then [payload (setup_payload_detection (ucast (random_0_2 env)) (get_gnss_time env) s)]
      else [])"
proof (cases "completes env")
  case True
  then obtain s1 where s1: "loop env s = loop_switch env s1" "extends s s1"
      "payloads_of (emitted s s1) = []"
      "s1\<lparr>trace := trace s\<rparr> = s\<lparr>flag := random_0_2 env,
          dnn_input := fill_input (getImgBuff env) (dnn_input s)\<rparr>"
    using loop_completes [of env s] by blast
  have "emitted s (loop env s) = emitted s s1 @ emitted s1 (loop_switch env s1)"
    using emitted_trans(1) [OF s1(2) loop_switch_extends] by (simp add: s1(1))
  then show ?thesis
    using same_but_trace [OF s1(4)] True
    by (simp add: s1(3) loop_switch_payloads payload_bytes)
next
  case False
  then show ?thesis by (simp add: loop_abandoned)
qed

lemma loop_writes:
  "writes_of (emitted s (loop env s)) =
     (if \<not> completes env \<or> program_sts s \<noteq> PROGRAM_STS_RUNNING then []
      else if \<not> gnss_recevie_timeout s then [(LED_ERR, LOW)]
      else if 1000 \<le> millis env - last_change_blink_time s then [(LED_ERR, \<not> pins s LED_ERR)]
      else [])"
proof (cases "completes env")
  case True
  then obtain s1 where s1: "loop env s = loop_switch env s1" "extends s s1"
      "writes_of (emitted s s1) = []"
      "s1\<lparr>trace := trace s\<rparr> = s\<lparr>flag := random_0_2 env,
          dnn_input := fill_input (getImgBuff env) (dnn_input s)\<rparr>"
    using loop_completes [of env s] by blast
  have "emitted s (loop env s) = emitted s s1 @ emitted s1 (loop_switch env s1)"
    using emitted_trans(1) [OF s1(2) loop_switch_extends] by (simp add: s1(1))
  then show ?thesis
    using same_but_trace [OF s1(4)] True
    by (simp add: s1(3) loop_switch_writes)
next
  case False
  then show ?thesis by (simp add: loop_abandoned)
qed

lemma loop_pins:
  "pins (loop env s) =
     (if \<not> completes env \<or> program_sts s \<noteq> PROGRAM_STS_RUNNING then pins s
      else if \<not> gnss_recevie_timeout s then (pins s)(LED_ERR := LOW)
      else if 1000 \<le> millis env - last_change_blink_time s
        then (pins s)(LED_ERR := \<not> pins s LED_ERR)
      else pins s)"
proof (cases "completes env")
  case True
  then obtain s1 where s1: "loop env s = loop_switch env s1"
      "s1\<lparr>trace := trace s\<rparr> = s\<lparr>flag := random_0_2 env,
          dnn_input := fill_input (getImgBuff env) (dnn_input s)\<rparr>"
    using loop_completes [of env s] by blast
  show ?thesis
    using same_but_trace [OF s1(2)] True by (simp add: s1(1) loop_switch_pins)
next
  case False
  show ?thesis
    using same_but_trace [OF loop_abandoned(4) [OF False, of s]] False by simp
qed

lemma loop_blink_time:
  "last_change_blink_time (loop env s) =
     (if completes env \<and> program_sts s = PROGRAM_STS_RUNNING \<and> gnss_recevie_timeout s
          \<and> 1000 \<le> millis env - last_change_blink_time s
      then millis env else last_change_blink_time s)"
proof (cases "completes env")
  case True
  then obtain s1 where s1: "loop env s = loop_switch env s1"
      "s1\<lparr>trace := trace s\<rparr> = s\<lparr>flag := random_0_2 env,
          dnn_input := fill_input (getImgBuff env) (dnn_input s)\<rparr>"
    using loop_completes [of env s] by blast
  show ?thesis
    using same_but_trace [OF s1(2)] True by (simp add: s1(1) loop_switch_blink_time)
next
  case False
  show ?thesis
    using same_but_trace [OF loop_abandoned(4) [OF False, of s]] False by simp
qed

lemma loop_payload:
  "payload (loop env s) =
     (if completes env \<and> program_sts s = PROGRAM_STS_RUNNING \<and> event_send_ready s
      then payload (setup_payload_detection (ucast (random_0_2 env)) (get_gnss_time env) s)
      else payload s)"
proof (cases "completes env")
  case True
  then obtain s1 where s1: "loop env s = loop_switch env s1"
      "s1\<lparr>trace := trace s\<rparr> = s\<lparr>flag := random_0_2 env,
          dnn_input := fill_input (getImgBuff env) (dnn_input s)\<rparr>"
    using loop_completes [of env s] by blast
  show ?thesis
    using same_but_trace [OF s1(2)] True by (simp add: s1(1) loop_switch_payload payload_bytes)
next
  case False
  show ?thesis
    using same_but_trace [OF loop_abandoned(4) [OF False, of s]] False by simp
qed

lemma loop_dnn_input:
  "dnn_input (loop env s) =
     (if completes env then fill_input (getImgBuff env) (dnn_input s) else dnn_input s)"
proof (cases "completes env")
  case True
  then obtain s1 where s1: "loop env s = loop_switch env s1"
      "s1\<lparr>trace := trace s\<rparr> = s\<lparr>flag := random_0_2 env,
          dnn_input := fill_input (getImgBuff env) (dnn_input s)\<rparr>"
    using loop_completes [of env s] by blast
  show ?thesis
    using same_but_trace [OF s1(2)] True by (simp add: s1(1))
next
  case False
  show ?thesis
    using same_but_trace [OF loop_abandoned(4) [OF False, of s]] False by simp
qed

subsection \<open>The callbacks\<close>

lemma eltres_event_cb_program_sts [simp]:
  "program_sts (eltres_event_cb event s) = program_sts s"
  by (cases event) (simp_all add: serial_defs)

lemma eltres_event_cb_send_ready:
  "event_send_ready (eltres_event_cb event s) =
     (event_send_ready s \<or> event = ELTRES_BOARD_EVT_SEND_READY)"
  by (cases event) (simp_all add: serial_defs)

lemma eltres_event_cb_gnss:
  "gnss_recevie_timeout (eltres_event_cb event s) =
     (event = ELTRES_BOARD_EVT_GNSS_TMOUT
        \<or> event \<noteq> ELTRES_BOARD_EVT_GNSS_RECEIVE \<and> gnss_recevie_timeout s)"
  by (cases event) (simp_all add: serial_defs)

lemma fold_Serial_print_fields [simp]:
  "program_sts (fold Serial_print xs s) = program_sts s"
  "gnss_recevie_timeout (fold Serial_print xs s) = gnss_recevie_timeout s"
  "event_send_ready (fold Serial_print xs s) = event_send_ready s"
  "last_gga_info (fold Serial_print xs s) = last_gga_info s"
  by (induction xs arbitrary: s) (simp_all add: serial_defs)

lemma gga_event_cb_fields [simp]:
  "program_sts (gga_event_cb gga_info s) = program_sts s"
  "gnss_recevie_timeout (gga_event_cb gga_info s) = gnss_recevie_timeout s"
  "event_send_ready (gga_event_cb gga_info s) = event_send_ready s"
  "last_gga_info (gga_event_cb gga_info s) = gga_info"
  by (simp_all add: gga_event_cb_def Let_def serial_defs del: fold_simps)

lemma perform_program_sts [simp]: "program_sts (perform a s) = program_sts s"
  by (cases a) simp_all

lemma run_program_sts [simp]: "program_sts (run acts s) = program_sts s"
  unfolding run_def by (induction acts arbitrary: s) simp_all

lemma run_Cons: "run (a # acts) s = run acts (perform a s)"
  by (simp add: run_def)

lemma tick_effects_not_running:
  "program_sts s \<noteq> PROGRAM_STS_RUNNING \<Longrightarrow>
     writes_of (tick_effects acts s) = [] \<and> payloads_of (tick_effects acts s) = []"
proof (induction acts arbitrary: s)
  case Nil
  then show ?case by simp
next
  case (Cons a acts)
  show ?case
  proof (cases a)
    case (Tick env)
    then show ?thesis
      using Cons.IH [of "loop env s"] Cons.prems by (simp add: loop_writes loop_payloads)
  next
    case (Event event)
    then show ?thesis
      using Cons.IH [of "eltres_event_cb event s"] Cons.prems by simp
  next
    case (Gga gga_info)
    then show ?thesis
      using Cons.IH [of "gga_event_cb gga_info s"] Cons.prems by simp
  qed
qed

lemma no_send_ready_no_handoff:
  assumes "\<not> event_send_ready s" "Event ELTRES_BOARD_EVT_SEND_READY \<notin> set acts"
  shows "payloads_of (tick_effects acts s) = [] \<and> \<not> event_send_ready (run acts s)"
  using assms
proof (induction acts arbitrary: s)
  case Nil
  then show ?case by (simp add: run_def)
next
  case (Cons a acts)
  show ?case
  proof (cases a)
    case (Tick env)
    then show ?thesis
      using Cons.IH [of "loop env s"] Cons.prems
      by (simp add: loop_payloads loop_send_ready run_Cons)
  next
    case (Event event)
    then show ?thesis
      using Cons.IH [of "eltres_event_cb event s"] Cons.prems
      by (auto simp add: eltres_event_cb_send_ready run_Cons)
  next
    case (Gga gga_info)
    then show ?thesis
      using Cons.IH [of "gga_event_cb gga_info s"] Cons.prems by (simp add: run_Cons)
  qed
qed

subsection \<open>The concrete inputs\<close>

lemma wait_Serial_ready: "ready k \<Longrightarrow> wait_Serial ready k = Some k"
  by (subst wait_Serial.simps) simp

lemma wait_Serial_later: "\<not> ready k \<Longrightarrow> wait_Serial ready k = wait_Serial ready (Suc k)"
  by (subst wait_Serial.simps) simp

lemma wait_Serial_returns:
  assumes "ready k" "j \<le> k"
  shows "\<exists>i. wait_Serial ready j = Some i"
  using assms
proof (induction "k - j" arbitrary: j)
  case 0
  then show ?case by (simp add: wait_Serial_ready)
next
  case (Suc d)
  show ?case
  proof (cases "ready j")
    case True
    then show ?thesis by (simp add: wait_Serial_ready)
  next
    case False
    moreover have "\<exists>i. wait_Serial ready (Suc j) = Some i"
      using Suc by (intro Suc.hyps(1)) simp_all
    ultimately show ?thesis by (simp add: wait_Serial_later)
  qed
qed

lemma wait_all_ok: "wait_Serial (Serial_ready all_ok) 0 = Some 3"
  by (simp add: all_ok_def wait_Serial_later wait_Serial_ready numeral_3_eq_3)

lemma started_fields:
  "program_sts started = PROGRAM_STS_RUNNING" "\<not> gnss_recevie_timeout started"
  "\<not> event_send_ready started" "last_change_blink_time started = 0"
  "pins started LED_ERR = LOW" "pins started LED_RUN = HIGH"
  "last_gga_info started = init_gga_info"
  using wait_all_ok
  by (simp_all add: started_def setup_fn_def Let_def serial_defs all_ok_def init_state_def)

lemma stopped_fields:
  "program_sts stopped = PROGRAM_STS_STOPPED" "pins stopped LED_ERR = HIGH"
  "pins stopped LED_RUN = LOW"
  by (simp_all add: stopped_def setup_fn_def Let_def serial_defs radio_fails_def all_ok_def
      init_state_def)

lemma completes_tick_at [simp]: "completes (tick_at now score r)"
  by (simp add: completes_def tick_at_def)

lemma not_completes_no_picture [simp]: "\<not> completes (no_picture now)"
  by (simp add: completes_def no_picture_def tick_at_def)

lemma tick_at_fields [simp]:
  "random_0_2 (tick_at now score r) = r" "millis (tick_at now score r) = now"
  "get_gnss_time (tick_at now score r) = 1000018"
  "forward_output0 (tick_at now score r) input = score"
  by (simp_all add: tick_at_def)

text \<open>
  Claim C8. Once \<open>program_sts\<close> is \<open>PROGRAM_STS_STOPPED\<close> it stays so through
  every call of \<open>loop\<close> and of the callbacks, and no later call of \<open>loop\<close> writes to a
  pin or hands a payload to the board; a single call leaves the pins and the payload
  as they are.
\<close>

theorem stopped_is_terminal:
  assumes "program_sts s = PROGRAM_STS_STOPPED"
  shows "program_sts (run acts s) = PROGRAM_STS_STOPPED
     \<and> writes_of (tick_effects acts s) = []
     \<and> payloads_of (tick_effects acts s) = []
     \<and> pins (loop env s) = pins s
     \<and> payload (loop env s) = payload s"
  using assms tick_effects_not_running [of s acts]
  by (simp add: loop_pins loop_payload)

theorem stopped_is_terminal_witness:
  "program_sts stopped = PROGRAM_STS_STOPPED
   \<and> program_sts (run [Tick (tick_at 1000 0x3F800000 1), Event ELTRES_BOARD_EVT_SEND_READY,
        Tick (tick_at 2000 0 0)] stopped) = PROGRAM_STS_STOPPED
   \<and> writes_of (tick_effects [Tick (tick_at 1000 0x3F800000 1),
        Event ELTRES_BOARD_EVT_SEND_READY, Tick (tick_at 2000 0 0)] stopped) = []
   \<and> payloads_of (tick_effects [Tick (tick_at 1000 0x3F800000 1),
        Event ELTRES_BOARD_EVT_SEND_READY, Tick (tick_at 2000 0 0)] stopped) = []
   \<and> pins (loop (tick_at 1000 0x3F800000 1) stopped) LED_ERR = HIGH"
  using stopped_is_terminal [of stopped
      "[Tick (tick_at 1000 0x3F800000 1), Event ELTRES_BOARD_EVT_SEND_READY,
        Tick (tick_at 2000 0 0)]" "tick_at 1000 0x3F800000 1"]
  by (simp add: stopped_fields)

section \<open>The hand-over of the payload\<close>

text \<open>
  Claim C5, amended. After the callback has set \<open>event_send_ready\<close>, a call of \<open>loop\<close>
  in the running state in which no camera step fails clears the flag and hands exactly
  one payload to the board; after it, the calls of \<open>loop\<close> in any run without a new
  \<open>ELTRES_BOARD_EVT_SEND_READY\<close> event hand over none and the flag stays clear. A call
  of \<open>loop\<close> in which a camera step fails leaves the flag set and hands over nothing.
\<close>

theorem send_ready_round_trip:
  assumes "program_sts s = PROGRAM_STS_RUNNING"
    and "completes env"
    and "Event ELTRES_BOARD_EVT_SEND_READY \<notin> set acts"
    and "\<not> completes env'"
  shows "event_send_ready (eltres_event_cb ELTRES_BOARD_EVT_SEND_READY s)
     \<and> \<not> event_send_ready (loop env (eltres_event_cb ELTRES_BOARD_EVT_SEND_READY s))
     \<and> length (payloads_of (emitted (eltres_event_cb ELTRES_BOARD_EVT_SEND_READY s)
          (loop env (eltres_event_cb ELTRES_BOARD_EVT_SEND_READY s)))) = 1
     \<and> payloads_of (tick_effects acts
          (loop env (eltres_event_cb ELTRES_BOARD_EVT_SEND_READY s))) = []
     \<and> \<not> event_send_ready (run acts
          (loop env (eltres_event_cb ELTRES_BOARD_EVT_SEND_READY s)))
     \<and> event_send_ready (loop env' (eltres_event_cb ELTRES_BOARD_EVT_SEND_READY s))
     \<and> payloads_of (emitted (eltres_event_cb ELTRES_BOARD_EVT_SEND_READY s)
          (loop env' (eltres_event_cb ELTRES_BOARD_EVT_SEND_READY s))) = []"
proof -
  let ?s1 = "eltres_event_cb ELTRES_BOARD_EVT_SEND_READY s"
  have s1: "event_send_ready ?s1" "program_sts ?s1 = PROGRAM_STS_RUNNING"
    using assms(1) by (simp_all add: eltres_event_cb_send_ready)
  have clear: "\<not> event_send_ready (loop env ?s1)"
    using assms(2) s1 by (simp add: loop_send_ready)
  have one: "length (payloads_of (emitted ?s1 (loop env ?s1))) = 1"
    using assms(2) s1 by (simp add: loop_payloads)
  have later: "payloads_of (tick_effects acts (loop env ?s1)) = []
      \<and> \<not> event_send_ready (run acts (loop env ?s1))"
    using clear assms(3) by (rule no_send_ready_no_handoff)
  have failed: "event_send_ready (loop env' ?s1)"
      "payloads_of (emitted ?s1 (loop env' ?s1)) = []"
    using assms(4) s1 by (simp_all add: loop_send_ready loop_payloads)
  show ?thesis
    using s1(1) clear one later failed by simp
qed

theorem send_ready_round_trip_witness:
  "program_sts started = PROGRAM_STS_RUNNING
   \<and> completes (tick_at 61000 0 1)
   \<and> Event ELTRES_BOARD_EVT_SEND_READY \<notin>
        set [Event ELTRES_BOARD_EVT_SENDING, Tick (tick_at 62000 0 1), Event ELTRES_BOARD_EVT_IDLE]
   \<and> \<not> completes (no_picture 61000)
   \<and> payloads_of (emitted (eltres_event_cb ELTRES_BOARD_EVT_SEND_READY started)
        (loop (tick_at 61000 0 1) (eltres_event_cb ELTRES_BOARD_EVT_SEND_READY started)))
      = [[0x8A, 1, 0, 0, 0, 0, 0, 0, 0, 0, 0x00, 0x0F, 0x42, 0x40, 0, 0]]
   \<and> payloads_of (tick_effects
        [Event ELTRES_BOARD_EVT_SENDING, Tick (tick_at 62000 0 1), Event ELTRES_BOARD_EVT_IDLE]
        (loop (tick_at 61000 0 1) (eltres_event_cb ELTRES_BOARD_EVT_SEND_READY started))) = []
   \<and> event_send_ready (loop (no_picture 61000)
        (eltres_event_cb ELTRES_BOARD_EVT_SEND_READY started))"
  using send_ready_round_trip [of started "tick_at 61000 0 1"
      "[Event ELTRES_BOARD_EVT_SENDING, Tick (tick_at 62000 0 1), Event ELTRES_BOARD_EVT_IDLE]"
      "no_picture 61000"]
  by (simp add: started_fields loop_payloads eltres_event_cb_send_ready payload_bytes
      serial_defs init_gga_info_def)

theorem send_ready_abandoned_tick:
  "program_sts started = PROGRAM_STS_RUNNING
   \<and> event_send_ready (eltres_event_cb ELTRES_BOARD_EVT_SEND_READY started)
   \<and> event_send_ready (loop (no_picture 61000)
        (eltres_event_cb ELTRES_BOARD_EVT_SEND_READY started))
   \<and> payloads_of (emitted (eltres_event_cb ELTRES_BOARD_EVT_SEND_READY started)
        (loop (no_picture 61000) (eltres_event_cb ELTRES_BOARD_EVT_SEND_READY started))) = []"
  by (simp add: started_fields loop_send_ready loop_payloads eltres_event_cb_send_ready)

section \<open>The payload handed over and the two flags\<close>

lemma setup_fn_flags:
  assumes "setup_fn env s = Some out"
  shows "event_send_ready (outcome_state out) = event_send_ready s"
    "gnss_recevie_timeout (outcome_state out) = gnss_recevie_timeout s"
  using assms
  by (auto simp add: setup_fn_def Let_def
      split: eltres_board_result.splits option.splits if_splits CamErr.splits)

lemma low_byte_of_long: "(ucast (ucast (r :: 32 word) :: 16 word) :: 8 word) = ucast r"
  by (rule bit_word_eqI) (auto simp add: bit_simps)

lemma eltres_event_cb_last_gga_info [simp]:
  "last_gga_info (eltres_event_cb event s) = last_gga_info s"
  by (cases event) simp_all

lemma setup_all_ok: "setup_fn all_ok init_state = Some (Returned started)"
  using wait_all_ok
  by (simp add: started_def setup_fn_def Let_def all_ok_def)

text \<open>
  What \<open>loop\<close> hands over as it stands. In a call in the running state that finds
  \<open>event_send_ready\<close> set and in which no camera step fails, the one payload handed to
  the board is the one \<open>setup_payload_detection\<close> builds from the number that
  \<open>random(0, 2)\<close> returned in this call, cut to 16 bits, from the GNSS time and from the
  last GGA record received. The output of the network has no part in it: with any
  other network the payload is the same.
\<close>

lemma payload_from_random_flag:
  assumes "program_sts s = PROGRAM_STS_RUNNING"
    and "event_send_ready s"
    and "completes env"
  shows "payloads_of (emitted s (loop env s)) =
       [payload (setup_payload_detection (ucast (random_0_2 env)) (get_gnss_time env) s)]
     \<and> payloads_of (emitted s (loop env s)) =
       [[0x8A, ucast (random_0_2 env), 0, 0, 0, 0, 0, 0, 0, 0,
         ucast (drop_bit 24 (get_gnss_time env - 18)),
         ucast (drop_bit 16 (get_gnss_time env - 18)),
         ucast (drop_bit 8 (get_gnss_time env - 18)),
         ucast (get_gnss_time env - 18),
         0, m_pos_status (last_gga_info s)]]
     \<and> payloads_of (emitted s (loop (env\<lparr>forward_output0 := net\<rparr>) s)) =
         payloads_of (emitted s (loop env s))
     \<and> payloads_of (emitted (gga_event_cb gga_info s) (loop env (gga_event_cb gga_info s))) =
       [payload (setup_payload_detection (ucast (random_0_2 env)) (get_gnss_time env)
          (s\<lparr>last_gga_info := gga_info\<rparr>))]"
proof -
  have "completes (env\<lparr>forward_output0 := net\<rparr>)"
    using assms(3) by (simp add: completes_def)
  then show ?thesis
    using assms by (simp add: loop_payloads payload_bytes low_byte_of_long)
qed

lemma payload_from_random_flag_example:
  "program_sts (eltres_event_cb ELTRES_BOARD_EVT_SEND_READY started) = PROGRAM_STS_RUNNING
   \<and> event_send_ready (eltres_event_cb ELTRES_BOARD_EVT_SEND_READY started)
   \<and> completes (tick_at 61000 0 1)
   \<and> payloads_of (emitted (eltres_event_cb ELTRES_BOARD_EVT_SEND_READY started)
        (loop (tick_at 61000 0 1) (eltres_event_cb ELTRES_BOARD_EVT_SEND_READY started))) =
      [[0x8A, 1, 0, 0, 0, 0, 0, 0, 0, 0, 0x00, 0x0F, 0x42, 0x40, 0, 0]]"
  using payload_from_random_flag [of "eltres_event_cb ELTRES_BOARD_EVT_SEND_READY started"
      "tick_at 61000 0 1" "forward_output0 (tick_at 61000 0 1)" init_gga_info]
  by (simp add: started_fields eltres_event_cb_send_ready init_gga_info_def payload_bytes
      del: eltres_event_cb.simps)

text \<open>
  Claim C2. The payload handed to the board should carry the detection result of the
  call, the output of the network being taken as detected when it is not zero. The
  sketch calls byte 1 the detection flag (\<open>setup_payload_detection\<close>, the line it
  prints, its comment), but \<open>loop\<close> passes the number \<open>random(0, 2)\<close> returned and
  not the output of the network. Evaluated on the running state with
  \<open>event_send_ready\<close> set: with an output of 1.0 and a random number of 0 the flag byte
  handed over is 0, and with an output of 0.0 and a random number of 1 it is 1.
\<close>

theorem payload_ignores_inference:
  "program_sts (eltres_event_cb ELTRES_BOARD_EVT_SEND_READY started) = PROGRAM_STS_RUNNING
   \<and> event_send_ready (eltres_event_cb ELTRES_BOARD_EVT_SEND_READY started)
   \<and> float_nonzero (forward_output0 (tick_at 61000 0x3F800000 0)
        (fill_input (getImgBuff (tick_at 61000 0x3F800000 0))
           (dnn_input (eltres_event_cb ELTRES_BOARD_EVT_SEND_READY started))))
   \<and> payloads_of (emitted (eltres_event_cb ELTRES_BOARD_EVT_SEND_READY started)
        (loop (tick_at 61000 0x3F800000 0)
           (eltres_event_cb ELTRES_BOARD_EVT_SEND_READY started))) =
      [[0x8A, 0, 0, 0, 0, 0, 0, 0, 0, 0, 0x00, 0x0F, 0x42, 0x40, 0, 0]]
   \<and> \<not> float_nonzero (forward_output0 (tick_at 61000 0 1)
        (fill_input (getImgBuff (tick_at 61000 0 1))
           (dnn_input (eltres_event_cb ELTRES_BOARD_EVT_SEND_READY started))))
   \<and> payloads_of (emitted (eltres_event_cb ELTRES_BOARD_EVT_SEND_READY started)
        (loop (tick_at 61000 0 1) (eltres_event_cb ELTRES_BOARD_EVT_SEND_READY started))) =
      [[0x8A, 1, 0, 0, 0, 0, 0, 0, 0, 0, 0x00, 0x0F, 0x42, 0x40, 0, 0]]"
  by (simp add: started_fields eltres_event_cb_send_ready loop_payloads payload_bytes
      init_gga_info_def float_nonzero_def del: eltres_event_cb.simps)

text \<open>
  Claim C4, amended. \<open>event_send_ready\<close> is set by the event callback alone, on
  \<open>ELTRES_BOARD_EVT_SEND_READY\<close>, and cleared by \<open>loop\<close> alone, in a call in the running
  state in which no camera step fails. \<open>gnss_recevie_timeout\<close> is both set and cleared
  by the event callback, on \<open>ELTRES_BOARD_EVT_GNSS_TMOUT\<close> and on
  \<open>ELTRES_BOARD_EVT_GNSS_RECEIVE\<close>; \<open>loop\<close> reads it and never changes it. The GGA
  callback, \<open>setup\<close> and \<open>setup_payload_detection\<close> change neither flag.
\<close>

theorem coordination_flag_writers:
  "event_send_ready (eltres_event_cb event s) =
       (event_send_ready s \<or> event = ELTRES_BOARD_EVT_SEND_READY)
   \<and> event_send_ready (loop env s) =
       (event_send_ready s \<and> \<not> (completes env \<and> program_sts s = PROGRAM_STS_RUNNING))
   \<and> gnss_recevie_timeout (eltres_event_cb event s) =
       (event = ELTRES_BOARD_EVT_GNSS_TMOUT
          \<or> event \<noteq> ELTRES_BOARD_EVT_GNSS_RECEIVE \<and> gnss_recevie_timeout s)
   \<and> gnss_recevie_timeout (loop env s) = gnss_recevie_timeout s
   \<and> event_send_ready (gga_event_cb gga_info s) = event_send_ready s
   \<and> gnss_recevie_timeout (gga_event_cb gga_info s) = gnss_recevie_timeout s
   \<and> event_send_ready (setup_payload_detection flag16 gnss_time s) = event_send_ready s
   \<and> gnss_recevie_timeout (setup_payload_detection flag16 gnss_time s) = gnss_recevie_timeout s
   \<and> (setup_fn senv s = Some out \<longrightarrow>
         event_send_ready (outcome_state out) = event_send_ready s
         \<and> gnss_recevie_timeout (outcome_state out) = gnss_recevie_timeout s)"
  by (simp add: eltres_event_cb_send_ready loop_send_ready eltres_event_cb_gnss setup_fn_flags)

theorem coordination_flag_writers_witness:
  "setup_fn all_ok init_state = Some (Returned started)
   \<and> \<not> event_send_ready started \<and> \<not> gnss_recevie_timeout started
   \<and> event_send_ready (eltres_event_cb ELTRES_BOARD_EVT_SEND_READY started)
   \<and> \<not> event_send_ready (loop (tick_at 61000 0 1)
          (eltres_event_cb ELTRES_BOARD_EVT_SEND_READY started))
   \<and> gnss_recevie_timeout (eltres_event_cb ELTRES_BOARD_EVT_GNSS_TMOUT started)
   \<and> gnss_recevie_timeout (loop (tick_at 61000 0 1)
          (eltres_event_cb ELTRES_BOARD_EVT_GNSS_TMOUT started))"
  using coordination_flag_writers [of ELTRES_BOARD_EVT_SEND_READY started "tick_at 61000 0 1"
      init_gga_info 0 0 all_ok "Returned started"]
    coordination_flag_writers [of ELTRES_BOARD_EVT_GNSS_TMOUT started "tick_at 61000 0 1"
      init_gga_info 0 0 all_ok "Returned started"]
    coordination_flag_writers [of ELTRES_BOARD_EVT_SEND_READY
      "eltres_event_cb ELTRES_BOARD_EVT_SEND_READY started" "tick_at 61000 0 1"]
    coordination_flag_writers [of ELTRES_BOARD_EVT_GNSS_TMOUT
      "eltres_event_cb ELTRES_BOARD_EVT_GNSS_TMOUT started" "tick_at 61000 0 1"]
  by (simp add: setup_all_ok started_fields del: eltres_event_cb.simps)

theorem timeout_flag_cleared_by_callback:
  "gnss_recevie_timeout (eltres_event_cb ELTRES_BOARD_EVT_GNSS_TMOUT started)
   \<and> gnss_recevie_timeout (loop (tick_at 61000 0 1)
        (eltres_event_cb ELTRES_BOARD_EVT_GNSS_TMOUT started))
   \<and> \<not> gnss_recevie_timeout (eltres_event_cb ELTRES_BOARD_EVT_GNSS_RECEIVE
        (loop (tick_at 61000 0 1) (eltres_event_cb ELTRES_BOARD_EVT_GNSS_TMOUT started)))"
  by (simp add: eltres_event_cb_gnss del: eltres_event_cb.simps)

section \<open>Start-up and the error LED\<close>

subsection \<open>The error LED outside the running state\<close>

lemma eltres_event_cb_LED_ERR [simp]: "pins (eltres_event_cb event s) LED_ERR = pins s LED_ERR"
  by (cases event) simp_all

lemma fold_Serial_print_pins [simp]: "pins (fold Serial_print xs s) = pins s"
  by (induction xs arbitrary: s) simp_all

lemma gga_event_cb_pins [simp]: "pins (gga_event_cb gga_info s) = pins s"
  by (simp add: gga_event_cb_def Let_def del: fold_simps)

lemma LED_ERR_latched:
  "program_sts s \<noteq> PROGRAM_STS_RUNNING \<Longrightarrow> pins (run acts s) LED_ERR = pins s LED_ERR"
proof (induction acts arbitrary: s)
  case Nil
  then show ?case by (simp add: run_def)
next
  case (Cons a acts)
  have "program_sts (perform a s) \<noteq> PROGRAM_STS_RUNNING"
    using Cons.prems by simp
  then have "pins (run acts (perform a s)) LED_ERR = pins (perform a s) LED_ERR"
    by (rule Cons.IH)
  moreover have "pins (perform a s) LED_ERR = pins s LED_ERR"
    using Cons.prems by (cases a) (simp_all add: loop_pins)
  ultimately show ?case by (simp add: run_Cons)
qed

subsection \<open>Start-up\<close>

lemma setup_fn_radio_failure:
  assumes "eltres_begin env = ELTRES_BOARD_RESULT_ERR ret_elt"
  shows "\<exists>s'. setup_fn env s = Some (Returned s')
      \<and> program_sts s' = PROGRAM_STS_STOPPED \<and> pins s' LED_ERR = HIGH \<and> pins s' LED_RUN = LOW
      \<and> serial_of (emitted s s') =
          [SStr ''cannot start eltres board ('', SInt ret_elt, SStr '').'', SNewline]"
  using assms by (simp add: setup_fn_def Let_def serial_defs emitted_def)

lemma setup_fn_exits:
  assumes "eltres_begin env = ELTRES_BOARD_RESULT_OK" "Serial_ready env k"
  shows "\<not> nnbfile_found env \<Longrightarrow>
      \<exists>s'. setup_fn env s = Some (Exited s') \<and> program_sts s' = program_sts s
        \<and> pins s' LED_ERR = LOW \<and> pins s' LED_RUN = HIGH
        \<and> serial_of (emitted s s') = [SStr ''nnb is not found'']"
    and "nnbfile_found env \<Longrightarrow> dnnrt_begin env < 0 \<Longrightarrow>
      \<exists>s'. setup_fn env s = Some (Exited s') \<and> program_sts s' = program_sts s
        \<and> pins s' LED_ERR = LOW \<and> pins s' LED_RUN = HIGH
        \<and> serial_of (emitted s s') =
            [SStr ''DNNRT initialization failure.: '', SInt (dnnrt_begin env), SNewline]"
    and "nnbfile_found env \<Longrightarrow> \<not> dnnrt_begin env < 0 \<Longrightarrow> camera_begin env = CAM_ERR_CODE cam_err \<Longrightarrow>
      \<exists>s'. setup_fn env s = Some (Exited s') \<and> program_sts s' = program_sts s
        \<and> pins s' LED_ERR = LOW \<and> pins s' LED_RUN = HIGH
        \<and> serial_of (emitted s s') =
            [SStr ''CAMERA initialization failure.: '', SInt cam_err, SNewline]"
    and "nnbfile_found env \<Longrightarrow> \<not> dnnrt_begin env < 0 \<Longrightarrow> camera_begin env = CAM_ERR_SUCCESS \<Longrightarrow>
      setStillPictureImageFormat env = CAM_ERR_CODE cam_err \<Longrightarrow>
      \<exists>s'. setup_fn env s = Some (Exited s') \<and> program_sts s' = program_sts s
        \<and> pins s' LED_ERR = LOW \<and> pins s' LED_RUN = HIGH
        \<and> serial_of (emitted s s') =
            [SStr ''CAMERA set parameters failure.: '', SInt cam_err, SNewline]"
proof -
  obtain i where i: "wait_Serial (Serial_ready env) 0 = Some i"
    using wait_Serial_returns [of "Serial_ready env" k 0] assms(2) by auto
  show "\<not> nnbfile_found env \<Longrightarrow>
      \<exists>s'. setup_fn env s = Some (Exited s') \<and> program_sts s' = program_sts s
        \<and> pins s' LED_ERR = LOW \<and> pins s' LED_RUN = HIGH
        \<and> serial_of (emitted s s') = [SStr ''nnb is not found'']"
    using assms(1) i by (simp add: setup_fn_def Let_def serial_defs emitted_def)
  show "nnbfile_found env \<Longrightarrow> dnnrt_begin env < 0 \<Longrightarrow>
      \<exists>s'. setup_fn env s = Some (Exited s') \<and> program_sts s' = program_sts s
        \<and> pins s' LED_ERR = LOW \<and> pins s' LED_RUN = HIGH
        \<and> serial_of (emitted s s') =
            [SStr ''DNNRT initialization failure.: '', SInt (dnnrt_begin env), SNewline]"
    using assms(1) i by (simp add: setup_fn_def Let_def serial_defs emitted_def)
  show "nnbfile_found env \<Longrightarrow> \<not> dnnrt_begin env < 0 \<Longrightarrow> camera_begin env = CAM_ERR_CODE cam_err \<Longrightarrow>
      \<exists>s'. setup_fn env s = Some (Exited s') \<and> program_sts s' = program_sts s
        \<and> pins s' LED_ERR = LOW \<and> pins s' LED_RUN = HIGH
        \<and> serial_of (emitted s s') =
            [SStr ''CAMERA initialization failure.: '', SInt cam_err, SNewline]"
    using assms(1) i by (simp add: setup_fn_def Let_def serial_defs emitted_def)
  show "nnbfile_found env \<Longrightarrow> \<not> dnnrt_begin env < 0 \<Longrightarrow> camera_begin env = CAM_ERR_SUCCESS \<Longrightarrow>
      setStillPictureImageFormat env = CAM_ERR_CODE cam_err \<Longrightarrow>
      \<exists>s'. setup_fn env s = Some (Exited s') \<and> program_sts s' = program_sts s
        \<and> pins s' LED_ERR = LOW \<and> pins s' LED_RUN = HIGH
        \<and> serial_of (emitted s s') =
            [SStr ''CAMERA set parameters failure.: '', SInt cam_err, SNewline]"
    using assms(1) i by (simp add: setup_fn_def Let_def serial_defs emitted_def)
qed

lemma wait_failing:
  "wait_Serial (Serial_ready no_model_file) 0 = Some 3"
  "wait_Serial (Serial_ready dnnrt_fails) 0 = Some 3"
  "wait_Serial (Serial_ready camera_fails) 0 = Some 3"
  "wait_Serial (Serial_ready format_fails) 0 = Some 3"
  using wait_all_ok
  by (simp_all add: no_model_file_def dnnrt_fails_def camera_fails_def format_fails_def)

lemma setup_radio_fails: "setup_fn radio_fails init_state = Some (Returned stopped)"
  by (simp add: stopped_def setup_fn_def Let_def radio_fails_def all_ok_def)

text \<open>
  Claim C3, amended. When the ELTRES board fails to start, \<open>setup\<close> prints one report,
  switches the run LED off and the error LED on, sets \<open>program_sts\<close> to
  \<open>PROGRAM_STS_STOPPED\<close> and returns; from then on the error LED stays on and no call
  of \<open>loop\<close> writes to a pin or hands over a payload. When the board has started and
  the serial monitor is there, each of the four other failures (no model file, DNNRT,
  camera, picture format) makes \<open>setup\<close> print one report and end the program with
  \<open>exit(0)\<close>: \<open>program_sts\<close> is left as it was, the error LED off and the run LED on.
\<close>

theorem startup_failures:
  "(eltres_begin env = ELTRES_BOARD_RESULT_ERR ret_elt \<longrightarrow>
      (\<exists>s'. setup_fn env s = Some (Returned s')
         \<and> program_sts s' = PROGRAM_STS_STOPPED
         \<and> pins s' LED_ERR = HIGH \<and> pins s' LED_RUN = LOW
         \<and> serial_of (emitted s s') =
             [SStr ''cannot start eltres board ('', SInt ret_elt, SStr '').'', SNewline]
         \<and> pins (run acts s') LED_ERR = HIGH
         \<and> writes_of (tick_effects acts s') = []
         \<and> payloads_of (tick_effects acts s') = []))
   \<and> (eltres_begin env = ELTRES_BOARD_RESULT_OK \<and> Serial_ready env k
        \<and> \<not> nnbfile_found env \<longrightarrow>
      (\<exists>s'. setup_fn env s = Some (Exited s') \<and> program_sts s' = program_sts s
         \<and> pins s' LED_ERR = LOW \<and> pins s' LED_RUN = HIGH
         \<and> serial_of (emitted s s') = [SStr ''nnb is not found'']))
   \<and> (eltres_begin env = ELTRES_BOARD_RESULT_OK \<and> Serial_ready env k
        \<and> nnbfile_found env \<and> dnnrt_begin env < 0 \<longrightarrow>
      (\<exists>s'. setup_fn env s = Some (Exited s') \<and> program_sts s' = program_sts s
         \<and> pins s' LED_ERR = LOW \<and> pins s' LED_RUN = HIGH
         \<and> serial_of (emitted s s') =
             [SStr ''DNNRT initialization failure.: '', SInt (dnnrt_begin env), SNewline]))
   \<and> (eltres_begin env = ELTRES_BOARD_RESULT_OK \<and> Serial_ready env k
        \<and> nnbfile_found env \<and> \<not> dnnrt_begin env < 0
        \<and> camera_begin env = CAM_ERR_CODE cam_err \<longrightarrow>
      (\<exists>s'. setup_fn env s = Some (Exited s') \<and> program_sts s' = program_sts s
         \<and> pins s' LED_ERR = LOW \<and> pins s' LED_RUN = HIGH
         \<and> serial_of (emitted s s') =
             [SStr ''CAMERA initialization failure.: '', SInt cam_err, SNewline]))
   \<and> (eltres_begin env = ELTRES_BOARD_RESULT_OK \<and> Serial_ready env k
        \<and> nnbfile_found env \<and> \<not> dnnrt_begin env < 0
        \<and> camera_begin env = CAM_ERR_SUCCESS
        \<and> setStillPictureImageFormat env = CAM_ERR_CODE cam_err \<longrightarrow>
      (\<exists>s'. setup_fn env s = Some (Exited s') \<and> program_sts s' = program_sts s
         \<and> pins s' LED_ERR = LOW \<and> pins s' LED_RUN = HIGH
         \<and> serial_of (emitted s s') =
             [SStr ''CAMERA set parameters failure.: '', SInt cam_err, SNewline]))"
proof (intro conjI impI)
  assume "eltres_begin env = ELTRES_BOARD_RESULT_ERR ret_elt"
  then obtain s' where s': "setup_fn env s = Some (Returned s')"
      "program_sts s' = PROGRAM_STS_STOPPED" "pins s' LED_ERR = HIGH" "pins s' LED_RUN = LOW"
      "serial_of (emitted s s') =
         [SStr ''cannot start eltres board ('', SInt ret_elt, SStr '').'', SNewline]"
    using setup_fn_radio_failure [of env ret_elt s] by blast
  have "pins (run acts s') LED_ERR = HIGH"
    using LED_ERR_latched [of s' acts] s'(2,3) by simp
  moreover have "writes_of (tick_effects acts s') = [] \<and> payloads_of (tick_effects acts s') = []"
    using tick_effects_not_running [of s' acts] s'(2) by simp
  ultimately show "\<exists>s'. setup_fn env s = Some (Returned s')
         \<and> program_sts s' = PROGRAM_STS_STOPPED
         \<and> pins s' LED_ERR = HIGH \<and> pins s' LED_RUN = LOW
         \<and> serial_of (emitted s s') =
             [SStr ''cannot start eltres board ('', SInt ret_elt, SStr '').'', SNewline]
         \<and> pins (run acts s') LED_ERR = HIGH
         \<and> writes_of (tick_effects acts s') = []
         \<and> payloads_of (tick_effects acts s') = []"
    using s' by blast
qed (use setup_fn_exits in blast)+

theorem startup_failures_witness:
  "eltres_begin radio_fails = ELTRES_BOARD_RESULT_ERR (- 1)
   \<and> setup_fn radio_fails init_state = Some (Returned stopped)
   \<and> program_sts stopped = PROGRAM_STS_STOPPED \<and> pins stopped LED_ERR = HIGH
   \<and> pins (run [Tick (tick_at 1000 0 0), Event ELTRES_BOARD_EVT_GNSS_TMOUT,
        Tick (tick_at 2100 0 0)] stopped) LED_ERR = HIGH
   \<and> eltres_begin no_model_file = ELTRES_BOARD_RESULT_OK \<and> Serial_ready no_model_file 3
   \<and> \<not> nnbfile_found no_model_file
   \<and> \<not> is_Returned (the (setup_fn no_model_file init_state))
   \<and> nnbfile_found dnnrt_fails \<and> dnnrt_begin dnnrt_fails < 0
   \<and> \<not> is_Returned (the (setup_fn dnnrt_fails init_state))
   \<and> \<not> dnnrt_begin camera_fails < 0 \<and> camera_begin camera_fails = CAM_ERR_CODE (- 2)
   \<and> \<not> is_Returned (the (setup_fn camera_fails init_state))
   \<and> camera_begin format_fails = CAM_ERR_SUCCESS
   \<and> setStillPictureImageFormat format_fails = CAM_ERR_CODE (- 5)
   \<and> \<not> is_Returned (the (setup_fn format_fails init_state))
   \<and> program_sts (outcome_state (the (setup_fn format_fails init_state))) = PROGRAM_STS_INIT"
proof -
  have r: "eltres_begin radio_fails = ELTRES_BOARD_RESULT_ERR (- 1)"
    by (simp add: radio_fails_def)
  have m: "eltres_begin no_model_file = ELTRES_BOARD_RESULT_OK \<and> Serial_ready no_model_file 3
      \<and> \<not> nnbfile_found no_model_file"
    by (simp add: no_model_file_def all_ok_def)
  have d: "eltres_begin dnnrt_fails = ELTRES_BOARD_RESULT_OK \<and> Serial_ready dnnrt_fails 3
      \<and> nnbfile_found dnnrt_fails \<and> dnnrt_begin dnnrt_fails < 0"
    by (simp add: dnnrt_fails_def all_ok_def)
  have c: "eltres_begin camera_fails = ELTRES_BOARD_RESULT_OK \<and> Serial_ready camera_fails 3
      \<and> nnbfile_found camera_fails \<and> \<not> dnnrt_begin camera_fails < 0
      \<and> camera_begin camera_fails = CAM_ERR_CODE (- 2)"
    by (simp add: camera_fails_def all_ok_def)
  have f: "eltres_begin format_fails = ELTRES_BOARD_RESULT_OK \<and> Serial_ready format_fails 3
      \<and> nnbfile_found format_fails \<and> \<not> dnnrt_begin format_fails < 0
      \<and> camera_begin format_fails = CAM_ERR_SUCCESS
      \<and> setStillPictureImageFormat format_fails = CAM_ERR_CODE (- 5)"
    by (simp add: format_fails_def all_ok_def)
  have i: "program_sts init_state = PROGRAM_STS_INIT"
    by (simp add: init_state_def)
  show ?thesis
    using r m d c f i
      startup_failures [of radio_fails "- 1" init_state
        "[Tick (tick_at 1000 0 0), Event ELTRES_BOARD_EVT_GNSS_TMOUT, Tick (tick_at 2100 0 0)]"
        3 "- 2"]
      startup_failures [of no_model_file 0 init_state "[]" 3 0]
      startup_failures [of dnnrt_fails 0 init_state "[]" 3 0]
      startup_failures [of camera_fails 0 init_state "[]" 3 "- 2"]
      startup_failures [of format_fails 0 init_state "[]" 3 "- 5"]
    by (auto simp add: setup_radio_fails stopped_fields)
qed

theorem missing_model_exits_unlatched:
  "eltres_begin no_model_file = ELTRES_BOARD_RESULT_OK
   \<and> \<not> nnbfile_found no_model_file
   \<and> setup_fn no_model_file init_state \<noteq> None
   \<and> \<not> is_Returned (the (setup_fn no_model_file init_state))
   \<and> program_sts (outcome_state (the (setup_fn no_model_file init_state))) = PROGRAM_STS_INIT
   \<and> pins (outcome_state (the (setup_fn no_model_file init_state))) LED_ERR = LOW
   \<and> pins (outcome_state (the (setup_fn no_model_file init_state))) LED_RUN = HIGH"
  using wait_failing(1)
  by (simp add: setup_fn_def Let_def no_model_file_def all_ok_def init_state_def)

section \<open>The error LED while the GNSS wait has timed out\<close>

subsection \<open>The blinking of the error LED\<close>

lemma elapsed_1000:
  fixes now last :: "64 word"
  assumes "unat last \<le> unat now"
  shows "(1000 \<le> now - last) = (unat last + 1000 \<le> unat now)"
proof -
  have "last \<le> now"
    using assms by (simp add: word_le_nat_alt)
  then have "unat (now - last) = unat now - unat last"
    by (rule unat_sub)
  then show ?thesis
    using assms by (auto simp add: word_le_nat_alt)
qed

lemma loop_toggles:
  assumes "program_sts s = PROGRAM_STS_RUNNING" "gnss_recevie_timeout s"
  shows "(pins (loop env s) LED_ERR \<noteq> pins s LED_ERR) =
     (completes env \<and> 1000 \<le> millis env - last_change_blink_time s)"
  using assms by (simp add: loop_pins)

lemma toggle_times_spaced:
  assumes "program_sts s = PROGRAM_STS_RUNNING" "gnss_recevie_timeout s"
    and "sorted (map (\<lambda>e. unat (millis e)) envs)"
    and "\<forall>e \<in> set envs. unat (last_change_blink_time s) \<le> unat (millis e)"
  shows "successively (\<lambda>t t'. unat t + 1000 \<le> unat t') (toggle_times envs s)
     \<and> (\<forall>t \<in> set (toggle_times envs s). unat (last_change_blink_time s) + 1000 \<le> unat t)"
  using assms
proof (induction envs arbitrary: s)
  case Nil
  then show ?case by simp
next
  case (Cons env envs)
  let ?s' = "loop env s"
  have run: "program_sts ?s' = PROGRAM_STS_RUNNING" "gnss_recevie_timeout ?s'"
    using Cons.prems(1,2) by simp_all
  have sorted: "sorted (map (\<lambda>e. unat (millis e)) envs)"
    using Cons.prems(3) by simp
  have le: "unat (last_change_blink_time s) \<le> unat (millis env)"
    using Cons.prems(4) by simp
  show ?case
  proof (cases "pins ?s' LED_ERR \<noteq> pins s LED_ERR")
    case True
    then have t: "completes env" "1000 \<le> millis env - last_change_blink_time s"
      using loop_toggles [OF Cons.prems(1,2), of env] by simp_all
    then have last: "last_change_blink_time ?s' = millis env"
      using Cons.prems(1,2) by (simp add: loop_blink_time)
    have far: "unat (last_change_blink_time s) + 1000 \<le> unat (millis env)"
      using t(2) elapsed_1000 [OF le] by simp
    have "\<forall>e \<in> set envs. unat (last_change_blink_time ?s') \<le> unat (millis e)"
      using Cons.prems(3) last by simp
    then have IH: "successively (\<lambda>t t'. unat t + 1000 \<le> unat t') (toggle_times envs ?s')"
        "\<forall>t \<in> set (toggle_times envs ?s'). unat (millis env) + 1000 \<le> unat t"
      using Cons.IH [OF run sorted] last by simp_all
    have "successively (\<lambda>t t'. unat t + 1000 \<le> unat t') (millis env # toggle_times envs ?s')"
      using IH by (cases "toggle_times envs ?s'") simp_all
    moreover have "\<forall>t \<in> set (millis env # toggle_times envs ?s').
        unat (last_change_blink_time s) + 1000 \<le> unat t"
      using IH(2) far by auto
    ultimately show ?thesis
      using True by simp
  next
    case False
    then have "\<not> (completes env \<and> 1000 \<le> millis env - last_change_blink_time s)"
      using loop_toggles [OF Cons.prems(1,2), of env] by simp
    then have last: "last_change_blink_time ?s' = last_change_blink_time s"
      by (auto simp add: loop_blink_time)
    have "\<forall>e \<in> set envs. unat (last_change_blink_time ?s') \<le> unat (millis e)"
      using Cons.prems(4) last by simp
    then show ?thesis
      using Cons.IH [OF run sorted] last False by simp
  qed
qed

text \<open>
  Claim C9, amended. While \<open>gnss_recevie_timeout\<close> is set in the running state, a call
  of \<open>loop\<close> in which no camera step fails changes the level of the error LED exactly
  when the clock, less the time of the last change, is at least 1000 ms in unsigned
  64-bit arithmetic, and it then records the clock as the time of the last change; a
  call in which a camera step fails changes neither. The flag is still set after the
  call. So over any sequence of calls whose clock readings do not decrease and do not
  precede the recorded time, two changes of the LED are never less than 1000 ms
  apart, and none comes less than 1000 ms after the recorded time. How long the LED
  keeps a level beyond 1000 ms depends on when \<open>loop\<close> is called.
\<close>

theorem gnss_timeout_blink:
  assumes "program_sts s = PROGRAM_STS_RUNNING"
    and "gnss_recevie_timeout s"
    and "sorted (map (\<lambda>e. unat (millis e)) envs)"
    and "\<forall>e \<in> set envs. unat (last_change_blink_time s) \<le> unat (millis e)"
  shows "(pins (loop env s) LED_ERR \<noteq> pins s LED_ERR) =
       (completes env \<and> 1000 \<le> millis env - last_change_blink_time s)
     \<and> last_change_blink_time (loop env s) =
       (if completes env \<and> 1000 \<le> millis env - last_change_blink_time s
        then millis env else last_change_blink_time s)
     \<and> gnss_recevie_timeout (loop env s)
     \<and> program_sts (loop env s) = PROGRAM_STS_RUNNING
     \<and> successively (\<lambda>t t'. unat t + 1000 \<le> unat t') (toggle_times envs s)
     \<and> (\<forall>t \<in> set (toggle_times envs s). unat (last_change_blink_time s) + 1000 \<le> unat t)"
  using assms loop_toggles [OF assms(1,2), of env] toggle_times_spaced [OF assms]
  by (simp add: loop_blink_time)

lemma timeout_started:
  "program_sts (eltres_event_cb ELTRES_BOARD_EVT_GNSS_TMOUT started) = PROGRAM_STS_RUNNING"
  "gnss_recevie_timeout (eltres_event_cb ELTRES_BOARD_EVT_GNSS_TMOUT started)"
  "last_change_blink_time (eltres_event_cb ELTRES_BOARD_EVT_GNSS_TMOUT started) = 0"
  "pins (eltres_event_cb ELTRES_BOARD_EVT_GNSS_TMOUT started) LED_ERR = LOW"
  by (simp_all add: started_fields)

lemma millis_no_picture [simp]: "millis (no_picture now) = now"
  by (simp add: no_picture_def tick_at_def)

lemma toggle_times_example:
  "toggle_times [tick_at 1000 0 0, tick_at 2100 0 0, no_picture 3200, tick_at 4300 0 0]
     (eltres_event_cb ELTRES_BOARD_EVT_GNSS_TMOUT started) = [1000, 2100, 4300]"
  by (simp add: timeout_started started_fields loop_pins loop_blink_time
      del: eltres_event_cb.simps)

theorem gnss_timeout_blink_witness:
  "program_sts (eltres_event_cb ELTRES_BOARD_EVT_GNSS_TMOUT started) = PROGRAM_STS_RUNNING
   \<and> gnss_recevie_timeout (eltres_event_cb ELTRES_BOARD_EVT_GNSS_TMOUT started)
   \<and> sorted (map (\<lambda>e. unat (millis e))
        [tick_at 1000 0 0, tick_at 2100 0 0, no_picture 3200, tick_at 4300 0 0])
   \<and> pins (loop (tick_at 1000 0 0) (eltres_event_cb ELTRES_BOARD_EVT_GNSS_TMOUT started)) LED_ERR
        = HIGH
   \<and> last_change_blink_time
        (loop (tick_at 1000 0 0) (eltres_event_cb ELTRES_BOARD_EVT_GNSS_TMOUT started)) = 1000
   \<and> toggle_times [tick_at 1000 0 0, tick_at 2100 0 0, no_picture 3200, tick_at 4300 0 0]
        (eltres_event_cb ELTRES_BOARD_EVT_GNSS_TMOUT started) = [1000, 2100, 4300]
   \<and> successively (\<lambda>t t'. unat t + 1000 \<le> unat t') [1000, 2100, 4300 :: 64 word]"
proof -
  let ?s = "eltres_event_cb ELTRES_BOARD_EVT_GNSS_TMOUT started"
  let ?envs = "[tick_at 1000 0 0, tick_at 2100 0 0, no_picture 3200, tick_at 4300 0 0]"
  have h: "program_sts ?s = PROGRAM_STS_RUNNING" "gnss_recevie_timeout ?s"
      "sorted (map (\<lambda>e. unat (millis e)) ?envs)"
      "\<forall>e \<in> set ?envs. unat (last_change_blink_time ?s) \<le> unat (millis e)"
    by (simp_all add: timeout_started started_fields)
  note th = gnss_timeout_blink [OF h, of "tick_at 1000 0 0"]
  have ex: "toggle_times ?envs ?s = [1000, 2100, 4300]"
    by (rule toggle_times_example)
  have "pins (loop (tick_at 1000 0 0) ?s) LED_ERR = HIGH"
      "last_change_blink_time (loop (tick_at 1000 0 0) ?s) = 1000"
    using th by (simp_all add: timeout_started started_fields)
  moreover have "successively (\<lambda>t t'. unat t + 1000 \<le> unat t') [1000, 2100, 4300 :: 64 word]"
    using th ex by (simp only:)
  ultimately show ?thesis
    using h(1,2,3) ex by (simp only:)
qed

theorem blink_slower_than_1000ms:
  "program_sts (eltres_event_cb ELTRES_BOARD_EVT_GNSS_TMOUT started) = PROGRAM_STS_RUNNING
   \<and> gnss_recevie_timeout (eltres_event_cb ELTRES_BOARD_EVT_GNSS_TMOUT started)
   \<and> completes (tick_at 1000 0 0) \<and> completes (tick_at 2500 0 0)
   \<and> gnss_recevie_timeout (run [Tick (tick_at 1000 0 0), Tick (tick_at 2500 0 0)]
        (eltres_event_cb ELTRES_BOARD_EVT_GNSS_TMOUT started))
   \<and> toggle_times [tick_at 1000 0 0, tick_at 2500 0 0]
        (eltres_event_cb ELTRES_BOARD_EVT_GNSS_TMOUT started) = [1000, 2500]"
  by (simp add: timeout_started started_fields loop_pins loop_blink_time run_def
      del: eltres_event_cb.simps)

section \<open>The input tensor\<close>

subsection \<open>Rounding a quotient\<close>

lemma rne_div_near:
  assumes "0 < d"
  shows "\<bar>real (rne_div a d) - real a / real d\<bar> \<le> 1 / 2"
proof -
  define q r where "q = a div d" and "r = a mod d"
  have a: "real a = real q * real d + real r"
    unfolding q_def r_def by (metis div_mult_mod_eq of_nat_add of_nat_mult)
  have r: "r < d"
    unfolding r_def using assms by simp
  have quot: "real a / real d = real q + real r / real d"
    using assms by (simp add: a field_simps)
  have frac: "2 * r < d \<Longrightarrow> real r / real d < 1 / 2" "d < 2 * r \<Longrightarrow> 1 / 2 < real r / real d"
    "\<not> 2 * r < d \<Longrightarrow> \<not> d < 2 * r \<Longrightarrow> real r / real d = 1 / 2"
    "real r / real d < 1" "0 \<le> real r / real d"
    using assms r by (simp_all add: field_simps) (linarith+)?
  have m: "rne_div a d =
      (if 2 * r < d then q else if d < 2 * r then q + 1 else if even q then q else q + 1)"
    unfolding rne_div_def q_def r_def by (simp add: Let_def)
  show ?thesis
  proof (cases "2 * r < d")
    case True
    then show ?thesis using frac(1,5) by (simp add: m quot)
  next
    case False
    note nlt = this
    show ?thesis
    proof (cases "d < 2 * r")
      case True
      then show ?thesis using nlt frac(2,4) by (simp add: m quot)
    next
      case False
      have "rne_div a d = q \<or> rne_div a d = q + 1"
        using nlt False by (simp add: m)
      moreover have "real a / real d = real q + 1 / 2"
        using frac(3) [OF nlt False] quot by (simp only:)
      ultimately show ?thesis by auto
    qed
  qed
qed

lemma rne_div_exact: "0 < d \<Longrightarrow> rne_div (N * d) d = N"
  by (simp add: rne_div_def)

lemma rne_div_le:
  assumes "0 < d" "a \<le> N * d"
  shows "rne_div a d \<le> N"
proof -
  have "real a / real d \<le> real N"
    using assms by (simp add: field_simps) (metis of_nat_le_iff of_nat_mult)
  then have "real (rne_div a d) \<le> real N + 1 / 2"
    using rne_div_near [OF assms(1), of a] by linarith
  then show ?thesis by linarith
qed

lemma rne_div_ge:
  assumes "0 < d" "N * d \<le> a"
  shows "N \<le> rne_div a d"
proof -
  have "real N \<le> real a / real d"
    using assms by (simp add: field_simps) (metis of_nat_le_iff of_nat_mult)
  then have "real N - 1 / 2 \<le> real (rne_div a d)"
    using rne_div_near [OF assms(1), of a] by linarith
  then show ?thesis by linarith
qed

lemma shift_to_spec:
  assumes "0 < n"
  shows "\<exists>j. shift_to k n t = k + j \<and> t \<le> n * 2 ^ j \<and> (j = 0 \<or> n * 2 ^ (j - 1) < t)"
  using assms
proof (induction k n t rule: shift_to.induct)
  case (1 k n t)
  show ?case
  proof (cases "t \<le> n")
    case True
    then have "shift_to k n t = k + 0" by (subst shift_to.simps) simp
    then show ?thesis using True by (intro exI [of _ 0]) simp
  next
    case False
    then have step: "shift_to k n t = shift_to (k + 1) (2 * n) t"
      using "1.prems" by (subst shift_to.simps) simp
    obtain j where j: "shift_to (k + 1) (2 * n) t = k + 1 + j" "t \<le> 2 * n * 2 ^ j"
        "j = 0 \<or> 2 * n * 2 ^ (j - 1) < t"
      using "1.IH" False "1.prems" by auto
    have "n * 2 ^ (Suc j - 1) < t"
    proof (cases j)
      case 0
      then show ?thesis using False by simp
    next
      case (Suc i)
      then have "2 * n * 2 ^ i < t"
        using j(3) by simp
      then show ?thesis
        using Suc by (simp add: mult.assoc mult.left_commute)
    qed
    then show ?thesis
      using j(1,2) step by (intro exI [of _ "Suc j"]) simp
  qed
qed


lemma round_prec_facts:
  assumes "round_prec p n d = (m, k)" "0 < n" "0 < d" "n < d * 2 ^ (p - 1)" "1 \<le> p"
  shows "d * 2 ^ (p - 1) \<le> n * 2 ^ k" "n * 2 ^ k < d * 2 ^ p" "1 \<le> k"
    "2 ^ (p - 1) \<le> m" "m \<le> 2 ^ p" "m = rne_div (n * 2 ^ k) d"
    "\<bar>real m / 2 ^ k - real n / real d\<bar> \<le> 1 / 2 ^ (k + 1)"
proof -
  obtain j where j: "shift_to 0 n (d * 2 ^ (p - 1)) = 0 + j" "d * 2 ^ (p - 1) \<le> n * 2 ^ j"
      "j = 0 \<or> n * 2 ^ (j - 1) < d * 2 ^ (p - 1)"
    using shift_to_spec [OF assms(2), of 0 "d * 2 ^ (p - 1)"] by blast
  have k: "k = j" and m: "m = rne_div (n * 2 ^ k) d"
    using assms(1) j(1) by (auto simp add: round_prec_def Let_def)
  show "m = rne_div (n * 2 ^ k) d" by (rule m)
  show lo: "d * 2 ^ (p - 1) \<le> n * 2 ^ k"
    using j(2) k by simp
  have "j \<noteq> 0"
    using j(2) assms(4) by (cases "j = 0") simp_all
  then show k1: "1 \<le> k"
    using k by simp
  have "n * 2 ^ (k - 1) < d * 2 ^ (p - 1)"
    using j(3) \<open>j \<noteq> 0\<close> k by simp
  then have "2 * (n * 2 ^ (k - 1)) < 2 * (d * 2 ^ (p - 1))"
    by simp
  moreover have "2 * (n * 2 ^ (k - 1)) = n * 2 ^ k"
    using k1 by (cases k) simp_all
  moreover have "2 * (d * 2 ^ (p - 1)) = d * 2 ^ p"
    using assms(5) by (cases p) simp_all
  ultimately show hi: "n * 2 ^ k < d * 2 ^ p"
    by linarith
  show "2 ^ (p - 1) \<le> m"
    unfolding m using lo by (intro rne_div_ge assms(3)) (simp add: mult.commute)
  show "m \<le> 2 ^ p"
    unfolding m using hi by (intro rne_div_le assms(3)) (simp add: mult.commute)
  have split: "real m / 2 ^ k - real n / real d = (real m - real (n * 2 ^ k) / real d) / 2 ^ k"
    using assms(3) by (simp add: field_simps)
  have near: "\<bar>real m - real (n * 2 ^ k) / real d\<bar> \<le> 1 / 2"
    unfolding m by (rule rne_div_near [OF assms(3)])
  have "\<bar>real m / 2 ^ k - real n / real d\<bar> = \<bar>real m - real (n * 2 ^ k) / real d\<bar> / 2 ^ k"
    unfolding split by (simp add: abs_divide del: of_nat_mult of_nat_power)
  also have "\<dots> \<le> (1 / 2) / 2 ^ k"
    using near by (rule divide_right_mono) simp
  also have "\<dots> = 1 / 2 ^ (k + 1)"
    by simp
  finally show "\<bar>real m / 2 ^ k - real n / real d\<bar> \<le> 1 / 2 ^ (k + 1)" .
qed

lemma inverse_power_mono:
  fixes a b :: nat
  assumes "a \<le> b"
  shows "1 / (2 :: real) ^ b \<le> 1 / 2 ^ a"
  using assms by (simp add: field_simps power_increasing)

lemma pow2_le_cancel:
  fixes c :: nat
  assumes "0 < c" "c * 2 ^ a \<le> c * 2 ^ b"
  shows "a \<le> b"
  using assms by simp

lemma pow2_less_cancel:
  assumes "(2 :: nat) ^ a < 2 ^ b"
  shows "a < b"
  using assms by simp

lemma pixel_quotient:
  assumes "0 < n" "n \<le> 255"
  shows "\<exists>m k. narrow_to_binary32 (round_prec 53 n 255) = (m, k)
     \<and> 2 ^ 23 \<le> m \<and> m \<le> 2 ^ 24 \<and> m \<le> 2 ^ k \<and> 23 \<le> k \<and> k \<le> 31
     \<and> \<bar>real m / 2 ^ k - real n / 255\<bar> \<le> 1 / 2 ^ 24 + 1 / 2 ^ 53
     \<and> (n = 255 \<longrightarrow> m = 2 ^ k)"
proof -
  obtain m1 k1 where r1: "round_prec 53 n 255 = (m1, k1)"
    by (cases "round_prec 53 n 255")
  have small: "n < 255 * 2 ^ (53 - 1)"
    using assms(2) by simp
  note f1 = round_prec_facts [OF r1 assms(1) _ small]
  have lo1: "255 * 2 ^ 52 \<le> n * 2 ^ k1" and hi1: "n * 2 ^ k1 < 255 * 2 ^ 53"
    and m1: "2 ^ 52 \<le> m1" "m1 \<le> 2 ^ 53" "m1 = rne_div (n * 2 ^ k1) 255"
    and e1: "\<bar>real m1 / 2 ^ k1 - real n / 255\<bar> \<le> 1 / 2 ^ (k1 + 1)"
    using f1 by simp_all
  have "255 * 2 ^ 52 \<le> 255 * (2 :: nat) ^ k1"
    using lo1 assms(2) by (meson mult_le_mono1 order_trans)
  then have k1: "52 \<le> k1"
    by (intro pow2_le_cancel [of 255 52 k1]) simp_all
  have m1_le: "m1 \<le> 2 ^ k1"
    unfolding m1(3) using assms(2) by (intro rne_div_le) simp_all
  have m1_pos: "0 < m1"
    using m1(1) by (meson less_le_trans zero_less_numeral zero_less_power)
  obtain m k where r2: "round_prec 24 m1 (2 ^ k1) = (m, k)"
    by (cases "round_prec 24 m1 (2 ^ k1)")
  have small2: "m1 < 2 ^ k1 * 2 ^ (24 - 1)"
  proof -
    have "m1 \<le> 2 ^ k1 * 1"
      using m1_le by simp
    also have "\<dots> < 2 ^ k1 * 2 ^ (24 - 1)"
      by (rule mult_strict_left_mono) simp_all
    finally show ?thesis .
  qed
  note f2 = round_prec_facts [OF r2 m1_pos _ small2]
  have lo2: "2 ^ k1 * 2 ^ 23 \<le> m1 * 2 ^ k" and hi2: "m1 * 2 ^ k < 2 ^ k1 * 2 ^ 24"
    and m: "2 ^ 23 \<le> m" "m \<le> 2 ^ 24" "m = rne_div (m1 * 2 ^ k) (2 ^ k1)"
    and e2: "\<bar>real m / 2 ^ k - real m1 / 2 ^ k1\<bar> \<le> 1 / 2 ^ (k + 1)"
    using f2 by simp_all
  have "(2 :: nat) ^ k1 * 2 ^ 23 \<le> 2 ^ k1 * 2 ^ k"
    using lo2 m1_le by (meson mult_le_mono1 order_trans)
  then have k_lo: "23 \<le> k"
    by (intro pow2_le_cancel [of "2 ^ k1" 23 k]) simp_all
  have "(2 :: nat) ^ (52 + k) = 2 ^ 52 * 2 ^ k"
    by (rule power_add)
  also have "\<dots> \<le> m1 * 2 ^ k"
    using m1(1) by (rule mult_le_mono1)
  also have "\<dots> < 2 ^ k1 * 2 ^ 24"
    by (rule hi2)
  also have "\<dots> = 2 ^ (k1 + 24)"
    by (rule power_add [symmetric])
  finally have "52 + k < k1 + 24"
    by (rule pow2_less_cancel)
  moreover have k1_hi: "k1 \<le> 60"
  proof -
    have "1 * 2 ^ (k1 - 1) \<le> n * 2 ^ (k1 - 1)"
      using assms(1) by (intro mult_le_mono1) simp
    moreover have "2 * (n * 2 ^ (k1 - 1)) = n * 2 ^ k1"
      using k1 by (cases k1) simp_all
    ultimately have "2 * (1 * 2 ^ (k1 - 1)) < 255 * (2 :: nat) ^ 53"
      using hi1 by linarith
    also have "\<dots> < 2 * 2 ^ 60"
      by simp
    finally have "(2 :: nat) ^ (k1 - 1) < 2 ^ 60"
      by (simp only: mult_1 mult_less_cancel1)
    then have "k1 - 1 < 60"
      by (rule pow2_less_cancel)
    then show ?thesis by simp
  qed
  ultimately have k_hi: "k \<le> 31"
    by simp
  have m_le: "m \<le> 2 ^ k"
    unfolding m(3) using m1_le by (intro rne_div_le) simp_all
  have "\<bar>real m / 2 ^ k - real n / 255\<bar> \<le> 1 / 2 ^ (k + 1) + 1 / 2 ^ (k1 + 1)"
    using e1 e2 by linarith
  moreover have "1 / (2 :: real) ^ (k + 1) \<le> 1 / 2 ^ 24"
    using k_lo by (intro inverse_power_mono) simp
  moreover have "1 / (2 :: real) ^ (k1 + 1) \<le> 1 / 2 ^ 53"
    using k1 by (intro inverse_power_mono) simp
  ultimately have err: "\<bar>real m / 2 ^ k - real n / 255\<bar> \<le> 1 / 2 ^ 24 + 1 / 2 ^ 53"
    by linarith
  have exact: "m = 2 ^ k" if "n = 255"
  proof -
    have "m1 = 2 ^ k1"
      unfolding m1(3) that using rne_div_exact [of 255 "2 ^ k1"] by (simp add: mult.commute)
    then show ?thesis
      unfolding m(3) using rne_div_exact [of "2 ^ k1" "2 ^ k"] by (simp add: mult.commute)
  qed
  show ?thesis
    using r1 r2 m(1,2) m_le k_lo k_hi err exact by simp
qed


lemma valof_fields:
  assumes "0 < E" "E < 150" "F < 2 ^ 23"
  shows "valof (word_of_nat (E * 2 ^ 23 + F)) = real (2 ^ 23 + F) / 2 ^ (150 - E)"
proof -
  let ?u = "E * 2 ^ 23 + F"
  have small: "?u < 2 ^ 31"
    using assms by simp
  have "unat (word_of_nat ?u :: 32 word) = ?u mod 2 ^ LENGTH(32)"
    by (rule unat_of_nat)
  also have "\<dots> = ?u"
    using small by simp
  finally have u: "unat (word_of_nat ?u :: 32 word) = ?u" .
  have s: "?u div 2 ^ 31 = 0"
    using small by simp
  have e: "?u div 2 ^ 23 mod 2 ^ 8 = E"
    using assms by simp
  have f: "?u mod 2 ^ 23 = F"
    using assms by simp
  show ?thesis
    unfolding valof_def u Let_def s e f using assms(1,2) by simp
qed

lemma valof_zero: "valof 0 = 0"
  by (simp add: valof_def)

lemma valof_encode_float32:
  assumes "2 ^ 23 \<le> m" "m \<le> 2 ^ 24" "23 \<le> k" "k \<le> 149"
  shows "valof (encode_float32 (m, k)) = real m / 2 ^ k"
proof (cases "m = 2 ^ 24")
  case True
  have "valof (word_of_nat ((151 - k) * 2 ^ 23 + 0)) = real (2 ^ 23 + 0) / 2 ^ (150 - (151 - k))"
    using assms(3,4) by (intro valof_fields) simp_all
  moreover have "150 - (151 - k) = k - 1"
    using assms(3,4) by simp
  moreover have "(2 :: real) ^ k = 2 * 2 ^ (k - 1)"
    using assms(3) by (cases k) simp_all
  ultimately show ?thesis
    using True by simp
next
  case False
  then have "m - 2 ^ 23 < 2 ^ 23"
    using assms(1,2) by simp
  then have "valof (word_of_nat ((150 - k) * 2 ^ 23 + (m - 2 ^ 23))) =
      real (2 ^ 23 + (m - 2 ^ 23)) / 2 ^ (150 - (150 - k))"
    using assms(3,4) by (intro valof_fields) simp_all
  moreover have "150 - (150 - k) = k" "2 ^ 23 + (m - 2 ^ 23) = m"
    using assms by simp_all
  ultimately show ?thesis
    using False by simp
qed

text \<open>What \<open>div_255\<close> yields.\<close>

lemma div_255_value:
  fixes c :: "8 word"
  shows "0 \<le> valof (div_255 c)" "valof (div_255 c) \<le> 1"
    "(valof (div_255 c) = 1) = (c = 255)" "(valof (div_255 c) = 0) = (c = 0)"
    "\<bar>valof (div_255 c) - real (unat c) / 255\<bar> \<le> 1 / 2 ^ 24 + 1 / 2 ^ 53"
proof -
  have "0 \<le> valof (div_255 c) \<and> valof (div_255 c) \<le> 1
      \<and> (valof (div_255 c) = 1) = (c = 255) \<and> (valof (div_255 c) = 0) = (c = 0)
      \<and> \<bar>valof (div_255 c) - real (unat c) / 255\<bar> \<le> 1 / 2 ^ 24 + 1 / 2 ^ 53"
  proof (cases "c = 0")
    case True
    then show ?thesis by (simp add: div_255_def valof_zero)
  next
    case False
    let ?n = "unat c"
    have pos: "0 < ?n"
      using False by (simp add: unat_gt_0)
    have "?n < 2 ^ 8"
      using unsigned_less [of c, where 'a = nat] by simp
    then have le: "?n \<le> 255"
      by simp
    obtain m k where mk: "narrow_to_binary32 (round_prec 53 ?n 255) = (m, k)"
        "2 ^ 23 \<le> m" "m \<le> 2 ^ 24" "m \<le> 2 ^ k" "23 \<le> k" "k \<le> 31"
        "\<bar>real m / 2 ^ k - real ?n / 255\<bar> \<le> 1 / 2 ^ 24 + 1 / 2 ^ 53"
        "?n = 255 \<longrightarrow> m = 2 ^ k"
      using pixel_quotient [OF pos le] by blast
    have v: "valof (div_255 c) = real m / 2 ^ k"
      using False mk(1) valof_encode_float32 [OF mk(2,3,5)] mk(6) by (simp add: div_255_def)
    have c255: "(c = 255) = (?n = 255)"
    proof
      assume "c = 255"
      then show "?n = 255" by simp
    next
      assume "?n = 255"
      then have "word_of_nat ?n = (word_of_nat 255 :: 8 word)"
        by (simp only:)
      then show "c = 255" by simp
    qed
    have "0 < real m / 2 ^ k"
      using mk(2) by (simp add: field_simps) 
    moreover have "real m / 2 ^ k \<le> 1"
    proof -
      have "real m \<le> real (2 ^ k)"
        using mk(4) by (simp only: of_nat_le_iff)
      then show ?thesis by simp
    qed
    moreover have "(real m / 2 ^ k = 1) = (?n = 255)"
    proof
      assume "real m / 2 ^ k = 1"
      then have "1 - real ?n / 255 \<le> 1 / 2 ^ 24 + 1 / 2 ^ 53"
        using mk(7) by linarith
      then have "real ?n \<ge> 255 - 255 * (1 / 2 ^ 24 + 1 / 2 ^ 53)"
        by (simp add: field_simps)
      then have "real ?n > 254"
        by simp
      then show "?n = 255"
        using le by linarith
    next
      assume "?n = 255"
      then have "m = 2 ^ k" using mk(8) by simp
      then show "real m / 2 ^ k = 1" by simp
    qed
    moreover have "0 < m"
      using mk(2) by (cases "m = 0") simp_all
    ultimately show ?thesis
      using False mk(7) by (simp add: v c255)
  qed
  then show "0 \<le> valof (div_255 c)" "valof (div_255 c) \<le> 1"
    "(valof (div_255 c) = 1) = (c = 255)" "(valof (div_255 c) = 0) = (c = 0)"
    "\<bar>valof (div_255 c) - real (unat c) / 255\<bar> \<le> 1 / 2 ^ 24 + 1 / 2 ^ 53"
    by simp_all
qed

subsection \<open>Filling the input tensor\<close>

lemma fill_row:
  "length (fold (\<lambda>w data. data[b + w := g (b + w)]) [0..<n] d) = length d"
  "i < length d \<Longrightarrow>
     fold (\<lambda>w data. data[b + w := g (b + w)]) [0..<n] d ! i =
       (if b \<le> i \<and> i < b + n then g i else d ! i)"
proof (induction n)
  case 0
  {
    case 1
    show ?case by simp
  next
    case 2
    show ?case by auto
  }
next
  case (Suc n)
  {
    case 1
    show ?case using Suc(1) by simp
  next
    case 2
    then show ?case
      using Suc(1) Suc(2) [OF 2] by (cases "i = b + n") (auto simp add: nth_list_update)
  }
qed

lemma fill_rows:
  "length (fold (\<lambda>h data. fold (\<lambda>w data. data[h * W + w := g (h * W + w)]) [0..<W] data)
     [0..<m] d) = length d"
  "i < length d \<Longrightarrow>
     fold (\<lambda>h data. fold (\<lambda>w data. data[h * W + w := g (h * W + w)]) [0..<W] data)
       [0..<m] d ! i =
       (if i < m * W then g i else d ! i)"
proof (induction m)
  case 0
  {
    case 1
    show ?case by simp
  next
    case 2
    show ?case by simp
  }
next
  case (Suc m)
  {
    case 1
    show ?case using Suc(1) by (simp add: fill_row(1))
  next
    case 2
    then show ?case
      using Suc(1) Suc(2) [OF 2] by (auto simp add: fill_row)
  }
qed

lemma fill_input_length: "length (fill_input camera_buf input_data) = length input_data"
  unfolding fill_input_def
  using fill_rows(1) [of INPUT_WIDTH "\<lambda>i. div_255 (camera_buf ! i)" INPUT_HEIGHT input_data]
  by simp

lemma fill_input_eq:
  assumes "length camera_buf = INPUT_WIDTH * INPUT_HEIGHT"
    and "length input_data = INPUT_WIDTH * INPUT_HEIGHT"
  shows "fill_input camera_buf input_data = map div_255 camera_buf"
proof (rule nth_equalityI)
  show "length (fill_input camera_buf input_data) = length (map div_255 camera_buf)"
    using assms by (simp add: fill_input_length)
next
  fix i
  assume "i < length (fill_input camera_buf input_data)"
  then have i: "i < INPUT_WIDTH * INPUT_HEIGHT"
    using assms(2) by (simp add: fill_input_length)
  then have "fill_input camera_buf input_data ! i = div_255 (camera_buf ! i)"
    unfolding fill_input_def
    using fill_rows(2) [of i input_data INPUT_WIDTH "\<lambda>i. div_255 (camera_buf ! i)" INPUT_HEIGHT]
      assms(2)
    by (simp add: mult.commute)
  then show "fill_input camera_buf input_data ! i = map div_255 camera_buf ! i"
    using i assms(1) by simp
qed


lemma loop_dnn_input_length: "length (dnn_input (loop env s)) = length (dnn_input s)"
  by (simp add: loop_dnn_input fill_input_length)

subsection \<open>Evaluating the rounding on numerals\<close>

lemma shift_to_numeral:
  "shift_to k (numeral a) (numeral b) =
     (if (numeral b :: nat) \<le> numeral a then k
      else shift_to (k + 1) (2 * numeral a) (numeral b))"
  by (subst shift_to.simps) simp

lemma rne_div_numeral:
  "rne_div (numeral a) (numeral b) =
     (let q = (numeral a :: nat) div numeral b; r = (numeral a :: nat) mod numeral b
      in if 2 * r < numeral b then q else if numeral b < 2 * r then q + 1
         else if even q then q else q + 1)"
  by (simp only: rne_div_def)

lemma round_prec_numeral:
  "round_prec (numeral p) (numeral a) (numeral b) =
     (let k = shift_to 0 (numeral a) (numeral b * 2 ^ (numeral p - 1))
      in (rne_div (numeral a * 2 ^ k) (numeral b), k))"
  by (simp only: round_prec_def)

lemma div_255_grey: "div_255 0x80 = 0x3F008081"
  by (simp add: div_255_def round_prec_numeral rne_div_numeral shift_to_numeral)

lemma started_dnn_input: "dnn_input started = replicate (INPUT_WIDTH * INPUT_HEIGHT) 0"
  using wait_all_ok
  by (simp add: started_def setup_fn_def Let_def all_ok_def init_state_def)

text \<open>
  Claim C6. In a call of \<open>loop\<close> in which no camera step fails and the converted
  image has \<open>INPUT_WIDTH * INPUT_HEIGHT\<close> bytes, the tensor, which has as many floats,
  is overwritten in full: sample \<open>i\<close> is pixel \<open>i\<close> divided by \<open>255.0\<close> as C does it,
  that is, the quotient rounded to binary64 and then to binary32. Its value lies
  between 0 and 1, is 1 only for the pixel 255 and 0 only for the pixel 0, and differs
  from the exact quotient by no more than the two roundings allow.
\<close>

theorem preprocessing_normalises:
  assumes "completes env"
    and "length (getImgBuff env) = INPUT_WIDTH * INPUT_HEIGHT"
    and "length (dnn_input s) = INPUT_WIDTH * INPUT_HEIGHT"
    and "i < INPUT_WIDTH * INPUT_HEIGHT"
  shows "dnn_input (loop env s) = map div_255 (getImgBuff env)
     \<and> length (dnn_input (loop env s)) = INPUT_WIDTH * INPUT_HEIGHT
     \<and> dnn_input (loop env s) ! i = div_255 (getImgBuff env ! i)
     \<and> 0 \<le> valof (dnn_input (loop env s) ! i)
     \<and> valof (dnn_input (loop env s) ! i) \<le> 1
     \<and> (valof (dnn_input (loop env s) ! i) = 1) = (getImgBuff env ! i = 255)
     \<and> (valof (dnn_input (loop env s) ! i) = 0) = (getImgBuff env ! i = 0)
     \<and> \<bar>valof (dnn_input (loop env s) ! i) - real (unat (getImgBuff env ! i)) / 255\<bar>
           \<le> 1 / 2 ^ 24 + 1 / 2 ^ 53"
proof -
  have all: "dnn_input (loop env s) = map div_255 (getImgBuff env)"
    using assms(1) fill_input_eq [OF assms(2,3)] by (simp add: loop_dnn_input)
  then have nth: "dnn_input (loop env s) ! i = div_255 (getImgBuff env ! i)"
    using assms(2,4) by simp
  show ?thesis
    unfolding nth using all assms(2) div_255_value [of "getImgBuff env ! i"] by simp
qed

theorem preprocessing_normalises_witness:
  "completes (tick_at 1000 0 0)
   \<and> length (getImgBuff (tick_at 1000 0 0)) = INPUT_WIDTH * INPUT_HEIGHT
   \<and> length (dnn_input started) = INPUT_WIDTH * INPUT_HEIGHT
   \<and> 100 < INPUT_WIDTH * INPUT_HEIGHT
   \<and> INPUT_WIDTH * INPUT_HEIGHT = 3136
   \<and> length (dnn_input (loop (tick_at 1000 0 0) started)) = 3136
   \<and> dnn_input (loop (tick_at 1000 0 0) started) ! 100 = 0x3F008081
   \<and> valof (dnn_input (loop (tick_at 1000 0 0) started) ! 100) \<le> 1"
proof -
  have h: "completes (tick_at 1000 0 0)"
      "length (getImgBuff (tick_at 1000 0 0)) = INPUT_WIDTH * INPUT_HEIGHT"
      "length (dnn_input started) = INPUT_WIDTH * INPUT_HEIGHT"
      "100 < INPUT_WIDTH * INPUT_HEIGHT"
    by (simp_all add: tick_at_def completes_def started_dnn_input INPUT_WIDTH_def
        INPUT_HEIGHT_def)
  have n: "INPUT_WIDTH * INPUT_HEIGHT = 3136"
    by (simp add: INPUT_WIDTH_def INPUT_HEIGHT_def)
  have px: "getImgBuff (tick_at 1000 0 0) ! 100 = 0x80"
    using h(4) by (simp add: tick_at_def)
  show ?thesis
    using preprocessing_normalises [OF h] h n by (auto simp add: px div_255_grey)
qed

end
